theory Spec2Isabelle
  imports Complex_Main
begin

section \<open>Numbers of the script\<close>

text \<open>
  JavaScript numbers are IEEE 754 binary64 values and every \<^verbatim>\<open>+\<close>, \<^verbatim>\<open>-\<close> and \<^verbatim>\<open>/\<close>
  rounds its result. The functions of the script that compute with numbers therefore take
  the arithmetic as an argument: the type of numbers and the operations on it. What is
  proved for every arithmetic holds for the script's doubles, infinities and NaN included.
  \<open>num_of_nat\<close> gives the number for an integer literal or an array length, \<open>num_pos x\<close>
  is the test \<^verbatim>\<open>x > 0\<close>.
\<close>

record 'n arith =
  num_add :: "'n \<Rightarrow> 'n \<Rightarrow> 'n"
  num_sub :: "'n \<Rightarrow> 'n \<Rightarrow> 'n"
  num_div :: "'n \<Rightarrow> 'n \<Rightarrow> 'n"
  num_of_nat :: "nat \<Rightarrow> 'n"
  num_pos :: "'n \<Rightarrow> bool"

text \<open>Exact arithmetic on the reals, where nothing is rounded.\<close>

definition exact :: "real arith" where
  "exact = \<lparr>num_add = (+), num_sub = (-), num_div = (/), num_of_nat = real,
             num_pos = (\<lambda>x. 0 < x)\<rparr>"

text \<open>
  Binary64 arithmetic on its finite values, as reals: an operation returns the exact
  result rounded to the nearest number with a 53-bit significand, ties to the even
  significand. \<open>normalise\<close> scales the absolute value into \<open>[2^52, 2^53)\<close> by powers of
  two (it stops at the exponent \<open>-1074\<close> of the subnormal numbers; 2200 steps are more
  than the exponent range needs), \<open>round_half_even\<close> rounds the scaled value to an integer,
  \<open>scale2\<close> scales back. Results beyond the largest finite double, which the script
  would turn into an infinity, are not represented; this arithmetic is only run on
  concrete inputs that stay far below it. Array lengths are below \<open>2^32\<close> and the integer
  literals of the script are small, so \<open>num_of_nat\<close> does not round. The only divisor in
  the script is an array length plus one, so no division by zero has to be represented.
\<close>

definition round_half_even :: "real \<Rightarrow> int" where
  "round_half_even x =
     (let f = \<lfloor>x\<rfloor>; d = x - of_int f
      in if d < 1 / 2 then f else if 1 / 2 < d then f + 1 else if even f then f else f + 1)"

fun normalise :: "nat \<Rightarrow> real \<Rightarrow> int \<Rightarrow> real \<times> int" where
  "normalise 0 m e = (m, e)"
| "normalise (Suc fuel) m e =
     (if m < 2 ^ 52 \<and> - 1074 < e then normalise fuel (2 * m) (e - 1)
      else if 2 ^ 53 \<le> m then normalise fuel (m / 2) (e + 1)
      else (m, e))"

definition scale2 :: "real \<Rightarrow> int \<Rightarrow> real" where
  "scale2 r e = (if 0 \<le> e then r * 2 ^ nat e else r / 2 ^ nat (- e))"

definition round_double :: "real \<Rightarrow> real" where
  "round_double x =
     (if x = 0 then 0
      else (case normalise 2200 \<bar>x\<bar> 0 of
              (m, e) \<Rightarrow> (if x < 0 then - scale2 (of_int (round_half_even m)) e
                        else scale2 (of_int (round_half_even m)) e)))"

definition double :: "real arith" where
  "double = \<lparr>num_add = (\<lambda>x y. round_double (x + y)),
              num_sub = (\<lambda>x y. round_double (x - y)),
              num_div = (\<lambda>x y. round_double (x / y)),
              num_of_nat = real,
              num_pos = (\<lambda>x. 0 < x)\<rparr>"

section \<open>Data model of graph.js\<close>

text \<open>
  The script keeps two globals: \<^verbatim>\<open>categories\<close>, an object with the three keys
  \<^verbatim>\<open>object_class\<close>, \<^verbatim>\<open>budget_function\<close> and \<^verbatim>\<open>agency\<close>, each holding an array, and
  \<^verbatim>\<open>amounts\<close>, an array of objects \<^verbatim>\<open>{object_class, budget_function, agency, amount}\<close>.
  The three keys are a datatype and the table is a function from keys to lists. The type
  of the amounts is the type \<open>'n\<close> of numbers.
\<close>

datatype category = Object_class | Budget_function | Agency

record 'n amount_rec =
  object_class :: string
  budget_function :: string
  agency :: string
  amount :: 'n

record 'n state =
  categories :: "category \<Rightarrow> string list"
  amounts :: "'n amount_rec list"

text \<open>The table right after the three keys were initialised to empty arrays.\<close>

definition no_categories :: "category \<Rightarrow> 'a list" where
  "no_categories c = []"

section \<open>Array primitives\<close>

text \<open>
  \<^verbatim>\<open>Array.prototype.indexOf\<close>: the first index holding the value, or \<open>-1\<close>.
\<close>

fun indexOf_from :: "'a list \<Rightarrow> 'a \<Rightarrow> int \<Rightarrow> int" where
  "indexOf_from [] x i = - 1"
| "indexOf_from (y # ys) x i = (if y = x then i else indexOf_from ys x (i + 1))"

definition indexOf :: "'a list \<Rightarrow> 'a \<Rightarrow> int" where
  "indexOf xs x = indexOf_from xs x 0"

text \<open>
  \<^verbatim>\<open>xs.splice(start)\<close> with one argument removes everything from the actual start
  on; a negative start counts from the end. The value is what stays in the array.
\<close>

definition splice :: "'a list \<Rightarrow> int \<Rightarrow> 'a list" where
  "splice xs start =
     (let len = int (length xs);
          actual = (if start < 0 then max (len + start) 0 else min start len)
      in take (nat actual) xs)"

section \<open>Data cleaner: consolidate\_agencies\<close>

text \<open>
  \<^verbatim>\<open>
  function consolidate_agencies(n_agencies) {
    for (var amount of amounts) {
      if (categories.agency.indexOf(amount.agency) >= n_agencies) {
        amount.agency = "Other";
      }
    }
    categories.agency.splice(n_agencies);
    categories.agency.push("Other");
  }
  \<close>
\<close>

definition rewrite_agency :: "string list \<Rightarrow> int \<Rightarrow> 'n amount_rec \<Rightarrow> 'n amount_rec" where
  "rewrite_agency agencies n_agencies a =
     (if indexOf agencies (agency a) \<ge> n_agencies then a\<lparr>agency := ''Other''\<rparr> else a)"

definition consolidate_agencies :: "int \<Rightarrow> 'n state \<Rightarrow> 'n state" where
  "consolidate_agencies n_agencies st =
     (let agencies = categories st Agency;
          amounts' = map (rewrite_agency agencies n_agencies) (amounts st)
      in \<lparr>categories = (categories st)(Agency := splice agencies n_agencies @ [''Other'']),
          amounts = amounts'\<rparr>)"

section \<open>Category loader: download\_categories\<close>

text \<open>
  One element of \<^verbatim>\<open>response.data.results\<close>: \<^verbatim>\<open>{id, type, name, amount}\<close>. The
  identifier is opaque to the script, hence a type variable. The loader only compares the
  amount with 0, which involves no rounding, so the amount is a real here.
\<close>

record 'i api_result =
  result_id :: 'i
  result_type :: string
  result_name :: string
  result_amount :: real

datatype error = RequestFailed | TypeError

text \<open>
  \<^verbatim>\<open>categories[result.type]\<close> is an array only for the three keys the first loop
  initialised; for any other string it is \<^verbatim>\<open>undefined\<close> (or a member of
  \<^verbatim>\<open>Object.prototype\<close>) and the call of \<^verbatim>\<open>push\<close> throws a TypeError.
\<close>

definition category_of :: "string \<Rightarrow> category option" where
  "category_of t =
     (if t = ''object_class'' then Some Object_class
      else if t = ''budget_function'' then Some Budget_function
      else if t = ''agency'' then Some Agency
      else None)"

text \<open>
  \<^verbatim>\<open>
  for (var result of response.data.results) {
    if (result.amount != 0) {
      categories[result.type].push([result.id, result.name]);
    }
  }
  \<close>
\<close>

fun push_results ::
  "'i api_result list \<Rightarrow> (category \<Rightarrow> ('i \<times> string) list) \<Rightarrow>
     error + (category \<Rightarrow> ('i \<times> string) list)" where
  "push_results [] cats = Inr cats"
| "push_results (r # rs) cats =
     (if result_amount r \<noteq> 0 then
        (case category_of (result_type r) of
           None \<Rightarrow> Inl TypeError
         | Some c \<Rightarrow> push_results rs (cats(c := cats c @ [(result_id r, result_name r)])))
      else push_results rs cats)"

text \<open>
  The second loop awaits the requests in the order they were issued; a request that was
  rejected (\<open>None\<close>) makes the \<^verbatim>\<open>await\<close> throw.
\<close>

fun await_all ::
  "'i api_result list option list \<Rightarrow> (category \<Rightarrow> ('i \<times> string) list) \<Rightarrow>
     error + (category \<Rightarrow> ('i \<times> string) list)" where
  "await_all [] cats = Inr cats"
| "await_all (request # requests) cats =
     (case request of
        None \<Rightarrow> Inl RequestFailed
      | Some results \<Rightarrow>
          (case push_results results cats of
             Inl e \<Rightarrow> Inl e
           | Inr cats' \<Rightarrow> await_all requests cats'))"

text \<open>
  The endpoint is a parameter: \<open>api t\<close> is the outcome of the POST with
  \<^verbatim>\<open>{type: t, filters: {fy: YEAR}}\<close>. The first loop issues the three requests and sets
  the three keys to empty arrays.
\<close>

definition download_categories ::
  "(string \<Rightarrow> 'i api_result list option) \<Rightarrow> error + (category \<Rightarrow> ('i \<times> string) list)" where
  "download_categories api =
     await_all (map api [''object_class'', ''budget_function'', ''agency'']) no_categories"

section \<open>Graph builder: create\_graph\<close>

definition YEAR :: string where
  "YEAR = ''2019''"

text \<open>
  A node as \<^verbatim>\<open>create_graph\<close> makes it, \<^verbatim>\<open>{name}\<close>, and a link
  \<^verbatim>\<open>{source, target, names, value}\<close>. An endpoint is the literal \<^verbatim>\<open>0\<close> or the result
  of a lookup in an object of node indices: a number, \<^verbatim>\<open>undefined\<close>, or, for the key
  \<^verbatim>\<open>__proto__\<close>, the object \<^verbatim>\<open>Object.prototype\<close>.
\<close>

datatype jsval = Index nat | Undefined | Object_prototype

record gnode =
  name :: string

record 'n link =
  source :: jsval
  target :: jsval
  names :: "string list"
  val :: 'n

text \<open>
  \<^verbatim>\<open>
  function gen_ids(categories) {
    var ids = {};
    for (const category of categories) {
      ids[category] = nodes.length;
      nodes.push({ name: category });
    }
    return ids;
  }
  \<close>
  The array \<^verbatim>\<open>nodes\<close> of the enclosing function is passed in and returned. The object
  \<^verbatim>\<open>ids\<close> is a map from names to indices; a later entry for the same name replaces the
  earlier one. The key \<^verbatim>\<open>__proto__\<close> is the accessor inherited from
  \<^verbatim>\<open>Object.prototype\<close>: assigning a number to it stores nothing, and reading it gives
  \<^verbatim>\<open>Object.prototype\<close>. Every other name becomes an own property. \<open>ids_get\<close> is the
  lookup \<^verbatim>\<open>ids[key]\<close>; the script only looks up names of the list the object was built
  from.
\<close>

fun gen_ids_loop ::
  "string list \<Rightarrow> (string \<rightharpoonup> nat) \<Rightarrow> gnode list \<Rightarrow> (string \<rightharpoonup> nat) \<times> gnode list" where
  "gen_ids_loop [] ids nodes = (ids, nodes)"
| "gen_ids_loop (category # rest) ids nodes =
     gen_ids_loop rest
       (if category = ''__proto__'' then ids else ids(category \<mapsto> length nodes))
       (nodes @ [\<lparr>name = category\<rparr>])"

definition gen_ids :: "string list \<Rightarrow> gnode list \<Rightarrow> (string \<rightharpoonup> nat) \<times> gnode list" where
  "gen_ids cs nodes = gen_ids_loop cs Map.empty nodes"

definition ids_get :: "(string \<rightharpoonup> nat) \<Rightarrow> string \<Rightarrow> jsval" where
  "ids_get ids key =
     (if key = ''__proto__'' then Object_prototype
      else (case ids key of None \<Rightarrow> Undefined | Some i \<Rightarrow> Index i))"

text \<open>
  \<^verbatim>\<open>
  function sum_filter(constraints) {
    var total = 0;
    loop: for (const amount of amounts) {
      for (const key in constraints) {
        if (amount[key] != constraints[key]) {
          continue loop;
        }
      }
      total += amount.amount;
    }
    return total;
  }
  \<close>
  The constraints object is the list of its (key, value) entries in insertion order;
  \<open>amount_key\<close> is \<^verbatim>\<open>amount[key]\<close> for the three keys that occur. The additions are
  those of the arithmetic \<open>ar\<close>, made in the order of the array.
\<close>

fun amount_key :: "category \<Rightarrow> 'n amount_rec \<Rightarrow> string" where
  "amount_key Object_class a = object_class a"
| "amount_key Budget_function a = budget_function a"
| "amount_key Agency a = agency a"

fun satisfies :: "(category \<times> string) list \<Rightarrow> 'n amount_rec \<Rightarrow> bool" where
  "satisfies [] a = True"
| "satisfies ((key, v) # constraints) a =
     (if amount_key key a \<noteq> v then False else satisfies constraints a)"

fun sum_filter_loop ::
  "'n arith \<Rightarrow> (category \<times> string) list \<Rightarrow> 'n amount_rec list \<Rightarrow> 'n \<Rightarrow> 'n" where
  "sum_filter_loop ar constraints [] tot = tot"
| "sum_filter_loop ar constraints (a # rest) tot =
     sum_filter_loop ar constraints rest
       (if satisfies constraints a then num_add ar tot (amount a) else tot)"

definition sum_filter ::
  "'n arith \<Rightarrow> (category \<times> string) list \<Rightarrow> 'n amount_rec list \<Rightarrow> 'n" where
  "sum_filter ar constraints amts = sum_filter_loop ar constraints amts (num_of_nat ar 0)"

text \<open>
  The three nested loops of \<^verbatim>\<open>create_graph\<close>, innermost first. Each takes the array
  \<^verbatim>\<open>links\<close> built so far and returns it with the links it pushed.
  \<^verbatim>\<open>
  for (const agency of categories.agency) {
    const total = sum_filter({ object_class, budget_function, agency });
    if (total > 0) {
      links.push({ source: budget_function_ids[budget_function], target: agency_ids[agency],
                   names: [object_class, budget_function, agency], value: total });
    }
  }
  \<close>
\<close>

fun agency_loop ::
  "'n arith \<Rightarrow> 'n state \<Rightarrow> (string \<rightharpoonup> nat) \<Rightarrow> (string \<rightharpoonup> nat) \<Rightarrow> string \<Rightarrow> string \<Rightarrow>
     string list \<Rightarrow> 'n link list \<Rightarrow> 'n link list" where
  "agency_loop ar st budget_function_ids agency_ids oc bf [] lnks = lnks"
| "agency_loop ar st budget_function_ids agency_ids oc bf (ag # rest) lnks =
     (let tot = sum_filter ar [(Object_class, oc), (Budget_function, bf), (Agency, ag)]
                  (amounts st)
      in agency_loop ar st budget_function_ids agency_ids oc bf rest
           (if num_pos ar tot
            then lnks @ [\<lparr>source = ids_get budget_function_ids bf,
                          target = ids_get agency_ids ag,
                          names = [oc, bf, ag], val = tot\<rparr>]
            else lnks))"

text \<open>
  \<^verbatim>\<open>
  for (const budget_function of categories.budget_function) {
    const total = sum_filter({ object_class, budget_function });
    if (total > 0) {
      links.push({ source: object_class_ids[object_class],
                   target: budget_function_ids[budget_function],
                   names: [object_class, budget_function], value: total });
    }
    for (const agency of categories.agency) { ... }
  }
  \<close>
\<close>

fun budget_function_loop ::
  "'n arith \<Rightarrow> 'n state \<Rightarrow> (string \<rightharpoonup> nat) \<Rightarrow> (string \<rightharpoonup> nat) \<Rightarrow> (string \<rightharpoonup> nat) \<Rightarrow>
     string \<Rightarrow> string list \<Rightarrow> 'n link list \<Rightarrow> 'n link list" where
  "budget_function_loop ar st object_class_ids budget_function_ids agency_ids oc [] lnks = lnks"
| "budget_function_loop ar st object_class_ids budget_function_ids agency_ids oc (bf # rest) lnks =
     (let tot = sum_filter ar [(Object_class, oc), (Budget_function, bf)] (amounts st);
          lnks1 = (if num_pos ar tot
                   then lnks @ [\<lparr>source = ids_get object_class_ids oc,
                                 target = ids_get budget_function_ids bf,
                                 names = [oc, bf], val = tot\<rparr>]
                   else lnks);
          lnks2 = agency_loop ar st budget_function_ids agency_ids oc bf
                    (categories st Agency) lnks1
      in budget_function_loop ar st object_class_ids budget_function_ids agency_ids oc rest
           lnks2)"

text \<open>
  \<^verbatim>\<open>
  for (const object_class of categories.object_class) {
    links.push({ source: 0, target: object_class_ids[object_class],
                 names: [object_class], value: sum_filter({ object_class }) });
    for (const budget_function of categories.budget_function) { ... }
  }
  \<close>
\<close>

fun object_class_loop ::
  "'n arith \<Rightarrow> 'n state \<Rightarrow> (string \<rightharpoonup> nat) \<Rightarrow> (string \<rightharpoonup> nat) \<Rightarrow> (string \<rightharpoonup> nat) \<Rightarrow>
     string list \<Rightarrow> 'n link list \<Rightarrow> 'n link list" where
  "object_class_loop ar st object_class_ids budget_function_ids agency_ids [] lnks = lnks"
| "object_class_loop ar st object_class_ids budget_function_ids agency_ids (oc # rest) lnks =
     (let lnks1 = lnks @ [\<lparr>source = Index 0, target = ids_get object_class_ids oc,
                           names = [oc],
                           val = sum_filter ar [(Object_class, oc)] (amounts st)\<rparr>];
          lnks2 = budget_function_loop ar st object_class_ids budget_function_ids agency_ids oc
                    (categories st Budget_function) lnks1
      in object_class_loop ar st object_class_ids budget_function_ids agency_ids rest lnks2)"

text \<open>The value \<^verbatim>\<open>{ nodes, links }\<close> that \<^verbatim>\<open>create_graph\<close> returns.\<close>

record 'n graph =
  nodes :: "gnode list"
  links :: "'n link list"

definition root_nodes :: "gnode list" where
  "root_nodes = [\<lparr>name = ''USA FY '' @ YEAR @ '' Spending''\<rparr>]"

definition create_graph :: "'n arith \<Rightarrow> 'n state \<Rightarrow> 'n graph" where
  "create_graph ar st =
     (let nodes0 = root_nodes;
          (object_class_ids, nodes1) = gen_ids (categories st Object_class) nodes0;
          (budget_function_ids, nodes2) = gen_ids (categories st Budget_function) nodes1;
          (agency_ids, nodes3) = gen_ids (categories st Agency) nodes2;
          lnks = object_class_loop ar st object_class_ids budget_function_ids agency_ids
                   (categories st Object_class) []
      in \<lparr>nodes = nodes3, links = lnks\<rparr>)"

text \<open>
  The three index objects and the node array after each call of \<^verbatim>\<open>gen_ids\<close>, named so
  that statements about the graph can refer to them.
\<close>

definition object_class_ids :: "'n state \<Rightarrow> (string \<rightharpoonup> nat)" where
  "object_class_ids st = fst (gen_ids (categories st Object_class) root_nodes)"

definition nodes1 :: "'n state \<Rightarrow> gnode list" where
  "nodes1 st = snd (gen_ids (categories st Object_class) root_nodes)"

definition budget_function_ids :: "'n state \<Rightarrow> (string \<rightharpoonup> nat)" where
  "budget_function_ids st = fst (gen_ids (categories st Budget_function) (nodes1 st))"

definition nodes2 :: "'n state \<Rightarrow> gnode list" where
  "nodes2 st = snd (gen_ids (categories st Budget_function) (nodes1 st))"

definition agency_ids :: "'n state \<Rightarrow> (string \<rightharpoonup> nat)" where
  "agency_ids st = fst (gen_ids (categories st Agency) (nodes2 st))"

text \<open>
  The total \<^verbatim>\<open>sum_filter\<close> returns, written as one left fold: the amounts of the
  records that meet the constraints, added in array order starting from 0.
\<close>

definition total_of :: "'n arith \<Rightarrow> 'n list \<Rightarrow> 'n" where
  "total_of ar xs = foldl (num_add ar) (num_of_nat ar 0) xs"

text \<open>The links each loop pushes, as lists, for reasoning about the loops.\<close>

definition agency_edges ::
  "'n arith \<Rightarrow> 'n state \<Rightarrow> (string \<rightharpoonup> nat) \<Rightarrow> (string \<rightharpoonup> nat) \<Rightarrow> string \<Rightarrow> string \<Rightarrow>
     string list \<Rightarrow> 'n link list" where
  "agency_edges ar st bids aids oc bf ags =
     concat (map (\<lambda>ag.
       if num_pos ar (sum_filter ar [(Object_class, oc), (Budget_function, bf), (Agency, ag)]
                        (amounts st))
       then [\<lparr>source = ids_get bids bf, target = ids_get aids ag, names = [oc, bf, ag],
               val = sum_filter ar [(Object_class, oc), (Budget_function, bf), (Agency, ag)]
                       (amounts st)\<rparr>]
       else []) ags)"

definition budget_function_edges ::
  "'n arith \<Rightarrow> 'n state \<Rightarrow> (string \<rightharpoonup> nat) \<Rightarrow> (string \<rightharpoonup> nat) \<Rightarrow> (string \<rightharpoonup> nat) \<Rightarrow>
     string \<Rightarrow> string list \<Rightarrow> 'n link list" where
  "budget_function_edges ar st oids bids aids oc bfs =
     concat (map (\<lambda>bf.
       (if num_pos ar (sum_filter ar [(Object_class, oc), (Budget_function, bf)] (amounts st))
        then [\<lparr>source = ids_get oids oc, target = ids_get bids bf, names = [oc, bf],
                val = sum_filter ar [(Object_class, oc), (Budget_function, bf)]
                        (amounts st)\<rparr>]
        else [])
       @ agency_edges ar st bids aids oc bf (categories st Agency)) bfs)"

definition object_class_edges ::
  "'n arith \<Rightarrow> 'n state \<Rightarrow> (string \<rightharpoonup> nat) \<Rightarrow> (string \<rightharpoonup> nat) \<Rightarrow> (string \<rightharpoonup> nat) \<Rightarrow>
     string list \<Rightarrow> 'n link list" where
  "object_class_edges ar st oids bids aids ocs =
     concat (map (\<lambda>oc.
       \<lparr>source = Index 0, target = ids_get oids oc, names = [oc],
          val = sum_filter ar [(Object_class, oc)] (amounts st)\<rparr>
       # budget_function_edges ar st oids bids aids oc (categories st Budget_function)) ocs)"

section \<open>Layout adjuster: justify\_vertically\<close>

definition HEIGHT :: nat where
  "HEIGHT = 1440"

text \<open>
  After the layout library ran, a node carries \<^verbatim>\<open>layer\<close>, \<^verbatim>\<open>y0\<close>, \<^verbatim>\<open>y1\<close> and the
  arrays \<^verbatim>\<open>sourceLinks\<close> and \<^verbatim>\<open>targetLinks\<close>. A link object is shared: it is in the
  \<^verbatim>\<open>sourceLinks\<close> of its source and in the \<^verbatim>\<open>targetLinks\<close> of its target. The link
  objects therefore live in a store (a list), and the nodes hold positions in it. The
  nodes of the array \<^verbatim>\<open>nodes\<close> are distinct objects, so the array is a list of records
  and a reference to a node is its index. Coordinates are numbers of the arithmetic.
\<close>

record 'n snode =
  layer :: int
  y0 :: 'n
  y1 :: 'n
  sourceLinks :: "nat list"
  targetLinks :: "nat list"

record 'n slink =
  link_y0 :: 'n
  link_y1 :: 'n

text \<open>
  \<^verbatim>\<open>for (var link of node.sourceLinks) { link.y0 += offset; }\<close> and
  \<^verbatim>\<open>for (var link of node.targetLinks) { link.y1 += offset; }\<close>
\<close>

fun shift_sources :: "'n arith \<Rightarrow> 'n \<Rightarrow> nat list \<Rightarrow> 'n slink list \<Rightarrow> 'n slink list" where
  "shift_sources ar offset [] lks = lks"
| "shift_sources ar offset (k # ks) lks =
     shift_sources ar offset ks
       (lks[k := (lks ! k)\<lparr>link_y0 := num_add ar (link_y0 (lks ! k)) offset\<rparr>])"

fun shift_targets :: "'n arith \<Rightarrow> 'n \<Rightarrow> nat list \<Rightarrow> 'n slink list \<Rightarrow> 'n slink list" where
  "shift_targets ar offset [] lks = lks"
| "shift_targets ar offset (k # ks) lks =
     shift_targets ar offset ks
       (lks[k := (lks ! k)\<lparr>link_y1 := num_add ar (link_y1 (lks ! k)) offset\<rparr>])"

text \<open>
  The first inner loop: the nodes of the layer, as references in array order, and the sum
  of their heights, accumulated in that order from 0.
  \<^verbatim>\<open>
  for (var node of nodes) {
    if (node.layer == layer) {
      layer_nodes.push(node);
      node_height += node.y1 - node.y0;
    }
  }
  \<close>
\<close>

definition layer_nodes :: "int \<Rightarrow> 'n snode list \<Rightarrow> nat list" where
  "layer_nodes l ns = [i \<leftarrow> [0..<length ns]. layer (ns ! i) = l]"

definition node_height :: "'n arith \<Rightarrow> 'n snode list \<Rightarrow> nat list \<Rightarrow> 'n" where
  "node_height ar ns lns =
     foldl (\<lambda>h i. num_add ar h (num_sub ar (y1 (ns ! i)) (y0 (ns ! i)))) (num_of_nat ar 0) lns"

text \<open>
  \<^verbatim>\<open>var spacing = (HEIGHT - node_height) / (layer_nodes.length + 1);\<close>
\<close>

definition spacing :: "'n arith \<Rightarrow> int \<Rightarrow> 'n snode list \<Rightarrow> 'n" where
  "spacing ar l ns =
     num_div ar (num_sub ar (num_of_nat ar HEIGHT) (node_height ar ns (layer_nodes l ns)))
       (num_of_nat ar (length (layer_nodes l ns) + 1))"

text \<open>
  The second inner loop, over the references collected by the first.
  \<^verbatim>\<open>
  for (var node of layer_nodes) {
    var offset = y - node.y0;
    y += node.y1 - node.y0;
    y += spacing;
    node.y0 += offset;
    node.y1 += offset;
    for (var link of node.sourceLinks) { link.y0 += offset; }
    for (var link of node.targetLinks) { link.y1 += offset; }
  }
  \<close>
\<close>

fun place ::
  "'n arith \<Rightarrow> 'n \<Rightarrow> 'n \<Rightarrow> nat list \<Rightarrow> 'n snode list \<times> 'n slink list \<Rightarrow>
     'n snode list \<times> 'n slink list" where
  "place ar sp y [] (ns, lks) = (ns, lks)"
| "place ar sp y (i # rest) (ns, lks) =
     (let node = ns ! i;
          offset = num_sub ar y (y0 node);
          y' = num_add ar (num_add ar y (num_sub ar (y1 node) (y0 node))) sp;
          node' = node\<lparr>y0 := num_add ar (y0 node) offset, y1 := num_add ar (y1 node) offset\<rparr>;
          lks1 = shift_sources ar offset (sourceLinks node) lks;
          lks2 = shift_targets ar offset (targetLinks node) lks1
      in place ar sp y' rest (ns[i := node'], lks2))"

definition justify_layer ::
  "'n arith \<Rightarrow> int \<Rightarrow> 'n snode list \<times> 'n slink list \<Rightarrow> 'n snode list \<times> 'n slink list" where
  "justify_layer ar l st =
     (let sp = spacing ar l (fst st) in place ar sp sp (layer_nodes l (fst st)) st)"

text \<open>\<^verbatim>\<open>for (var layer = 0; layer < 4; layer++) { ... }\<close>\<close>

function layers_loop ::
  "'n arith \<Rightarrow> int \<Rightarrow> 'n snode list \<times> 'n slink list \<Rightarrow> 'n snode list \<times> 'n slink list" where
  "layers_loop ar l st = (if l < 4 then layers_loop ar (l + 1) (justify_layer ar l st) else st)"
  by pat_completeness auto
termination
  by (relation "measure (\<lambda>(ar, l, st). nat (4 - l))") auto

definition justify_vertically ::
  "'n arith \<Rightarrow> 'n snode list \<times> 'n slink list \<Rightarrow> 'n snode list \<times> 'n slink list" where
  "justify_vertically ar st = layers_loop ar 0 st"

text \<open>
  The vertical gaps of a layer, as exact differences of the coordinates: from the top of
  the canvas to the first node, between consecutive nodes, and from the last node to
  \<open>HEIGHT\<close>.
\<close>

fun gaps :: "real \<Rightarrow> nat list \<Rightarrow> real snode list \<Rightarrow> real list" where
  "gaps prev [] ns = [real HEIGHT - prev]"
| "gaps prev (i # rest) ns = (y0 (ns ! i) - prev) # gaps (y1 (ns ! i)) rest ns"

definition layer_gaps :: "int \<Rightarrow> real snode list \<Rightarrow> real list" where
  "layer_gaps l ns = gaps 0 (layer_nodes l ns) ns"

text \<open>
  A sequence of nodes is placed from \<open>y\<close> with spacing \<open>sp\<close> when each one starts where
  the walk of the second loop would put it in exact arithmetic.
\<close>

fun placed_from :: "real \<Rightarrow> real \<Rightarrow> nat list \<Rightarrow> real snode list \<Rightarrow> bool" where
  "placed_from sp y [] ns = True"
| "placed_from sp y (i # rest) ns =
     (y0 (ns ! i) = y \<and> placed_from sp (y + (y1 (ns ! i) - y0 (ns ! i)) + sp) rest ns)"

definition balanced :: "int \<Rightarrow> real snode list \<Rightarrow> bool" where
  "balanced l ns = placed_from (spacing exact l ns) (spacing exact l ns) (layer_nodes l ns) ns"

text \<open>Example inputs used to run the definitions.\<close>

definition rec_AZ :: "real amount_rec" where
  "rec_AZ = \<lparr>object_class = ''P'', budget_function = ''Q'', agency = ''Z'', amount = 7\<rparr>"

definition st_short :: "real state" where
  "st_short = \<lparr>categories = no_categories(Agency := [''A'']), amounts = [rec_AZ]\<rparr>"

definition rec_AB :: "real amount_rec" where
  "rec_AB = \<lparr>object_class = ''P'', budget_function = ''Q'', agency = ''B'', amount = 3\<rparr>"

definition rec_AA :: "real amount_rec" where
  "rec_AA = \<lparr>object_class = ''P'', budget_function = ''Q'', agency = ''A'', amount = 4\<rparr>"

definition st_two :: "real state" where
  "st_two = \<lparr>categories = no_categories(Agency := [''A'', ''B'']), amounts = [rec_AB, rec_AA]\<rparr>"

definition personnel_api :: "string \<Rightarrow> int api_result list option" where
  "personnel_api t =
     (if t = ''object_class'' then
        Some [\<lparr>result_id = 1, result_type = ''object_class'', result_name = ''Personnel'',
                 result_amount = 100\<rparr>,
              \<lparr>result_id = 2, result_type = ''object_class'', result_name = ''Ghost'',
                 result_amount = 0\<rparr>]
      else Some [])"

definition st_scenario :: "real state" where
  "st_scenario =
     \<lparr>categories = no_categories(Object_class := [''A''], Budget_function := [''B''],
                                 Agency := [''X'', ''Y'', ''W'']),
      amounts = [\<lparr>object_class = ''A'', budget_function = ''B'', agency = ''X'', amount = 50\<rparr>,
                 \<lparr>object_class = ''A'', budget_function = ''B'', agency = ''Y'', amount = 30\<rparr>]\<rparr>"

definition st_root_only :: "real state" where
  "st_root_only = \<lparr>categories = no_categories(Object_class := [''A'']), amounts = []\<rparr>"

definition st_negative :: "real state" where
  "st_negative =
     \<lparr>categories = no_categories(Object_class := [''A''], Budget_function := [''B''],
                                 Agency := [''X'', ''Other'']),
      amounts = [\<lparr>object_class = ''A'', budget_function = ''B'', agency = ''X'',
                   amount = - 5\<rparr>]\<rparr>"

text \<open>
  Amounts on which double addition rounds: \<open>2^52 + 1/2\<close> is a tie and rounds to the even
  \<open>2^52\<close>; the second object class is named \<^verbatim>\<open>__proto__\<close>.
\<close>

definition st_half :: "real state" where
  "st_half =
     \<lparr>categories = no_categories(Object_class := [''A'', ''__proto__'']),
      amounts = [\<lparr>object_class = ''A'', budget_function = ''B'', agency = ''Other'',
                   amount = 1 / 2\<rparr>,
                 \<lparr>object_class = ''A'', budget_function = ''B'', agency = ''Other'',
                   amount = 4503599627370496\<rparr>,
                 \<lparr>object_class = ''A'', budget_function = ''B'', agency = ''Other'',
                   amount = 1 / 2\<rparr>]\<rparr>"

text \<open>
  Amounts that cancel: under \<open>B\<close> the exact sum is 1 and the doubles add up to 0; under
  \<open>C\<close> the exact sum is 0 and the doubles add up to 2 (\<open>9007199254740992 = 2^53\<close>).
\<close>

definition st_cancel :: "real state" where
  "st_cancel =
     \<lparr>categories = no_categories(Object_class := [''A''], Budget_function := [''B'', ''C''],
                                 Agency := [''Other'']),
      amounts = [\<lparr>object_class = ''A'', budget_function = ''B'', agency = ''Other'',
                   amount = 10000000000000000\<rparr>,
                 \<lparr>object_class = ''A'', budget_function = ''B'', agency = ''Other'',
                   amount = 1\<rparr>,
                 \<lparr>object_class = ''A'', budget_function = ''B'', agency = ''Other'',
                   amount = - 10000000000000000\<rparr>,
                 \<lparr>object_class = ''A'', budget_function = ''C'', agency = ''Other'',
                   amount = - 9007199254740992\<rparr>,
                 \<lparr>object_class = ''A'', budget_function = ''C'', agency = ''Other'',
                   amount = - 1\<rparr>,
                 \<lparr>object_class = ''A'', budget_function = ''C'', agency = ''Other'',
                   amount = - 1\<rparr>,
                 \<lparr>object_class = ''A'', budget_function = ''C'', agency = ''Other'',
                   amount = 9007199254740994\<rparr>]\<rparr>"

definition fan_nodes :: "real snode list" where
  "fan_nodes =
     [\<lparr>layer = 0, y0 = 5, y1 = 205, sourceLinks = [0, 1], targetLinks = []\<rparr>,
      \<lparr>layer = 1, y0 = 5, y1 = 105, sourceLinks = [], targetLinks = [0]\<rparr>,
      \<lparr>layer = 1, y0 = 120, y1 = 220, sourceLinks = [], targetLinks = [1]\<rparr>,
      \<lparr>layer = 7, y0 = 3, y1 = 4, sourceLinks = [], targetLinks = []\<rparr>]"

definition fan_links :: "real slink list" where
  "fan_links = [\<lparr>link_y0 = 55, link_y1 = 55\<rparr>, \<lparr>link_y0 = 155, link_y1 = 170\<rparr>]"

definition centred_nodes :: "real snode list" where
  "centred_nodes = [\<lparr>layer = 0, y0 = 670, y1 = 770, sourceLinks = [0], targetLinks = []\<rparr>]"

definition centred_links :: "real slink list" where
  "centred_links = [\<lparr>link_y0 = 720, link_y1 = 9\<rparr>]"

section \<open>Facts about the array primitives\<close>

lemma indexOf_from_notin: "x \<notin> set xs \<Longrightarrow> indexOf_from xs x i = - 1"
  by (induction xs arbitrary: i) auto

lemma indexOf_from_in:
  "x \<in> set xs \<Longrightarrow>
     i \<le> indexOf_from xs x i \<and> indexOf_from xs x i < i + int (length xs) \<and>
     xs ! nat (indexOf_from xs x i - i) = x"
proof (induction xs arbitrary: i)
  case Nil
  then show ?case by simp
next
  case (Cons y ys)
  show ?case
  proof (cases "y = x")
    case True
    then show ?thesis by simp
  next
    case False
    with Cons.prems have mem: "x \<in> set ys" by simp
    from Cons.IH [OF mem, of "i + 1"]
    have lo: "i + 1 \<le> indexOf_from ys x (i + 1)"
      and hi: "indexOf_from ys x (i + 1) < i + 1 + int (length ys)"
      and at: "ys ! nat (indexOf_from ys x (i + 1) - (i + 1)) = x"
      by simp_all
    have "nat (indexOf_from ys x (i + 1) - i) = Suc (nat (indexOf_from ys x (i + 1) - (i + 1)))"
      using lo by simp
    with False lo hi at show ?thesis by simp
  qed
qed

lemma indexOf_notin: "x \<notin> set xs \<Longrightarrow> indexOf xs x = - 1"
  by (simp add: indexOf_def indexOf_from_notin)

lemma indexOf_in:
  assumes "x \<in> set xs"
  shows "0 \<le> indexOf xs x" and "indexOf xs x < int (length xs)"
    and "xs ! nat (indexOf xs x) = x"
  using indexOf_from_in [OF assms, of 0] by (simp_all add: indexOf_def)

lemma splice_nonneg: "0 \<le> n \<Longrightarrow> splice xs n = take (nat n) xs"
  by (auto simp: splice_def Let_def min_def)

lemma indexOf_below_in_take:
  assumes "x \<in> set xs" and "indexOf xs x < n"
  shows "x \<in> set (take (nat n) xs)"
proof -
  let ?k = "nat (indexOf xs x)"
  from indexOf_in [OF assms(1)] assms(2)
  have "?k < length xs" and "?k < nat n" and "xs ! ?k = x" by simp_all
  then have "take (nat n) xs ! ?k = x" and "?k < length (take (nat n) xs)" by simp_all
  then show ?thesis by (metis nth_mem)
qed

lemma consolidate_categories:
  "categories (consolidate_agencies n st) Agency = splice (categories st Agency) n @ [''Other'']"
  by (simp add: consolidate_agencies_def Let_def)

lemma consolidate_amounts:
  "amounts (consolidate_agencies n st) =
     map (rewrite_agency (categories st Agency) n) (amounts st)"
  by (simp add: consolidate_agencies_def Let_def)

section \<open>Agency consolidation\<close>

text \<open>
  C1 as stated fails: with one listed agency, cutoff 2 and a record whose agency is not
  listed, the agency list ends with 2 entries instead of 3 and the record keeps an agency
  that is neither one of the first names nor \<open>Other\<close>.
\<close>

theorem consolidate_agencies_counterexample:
  "length (categories (consolidate_agencies 2 st_short) Agency) \<noteq> 2 + 1 \<and>
   agency (amounts (consolidate_agencies 2 st_short) ! 0) \<notin>
     set (take 2 (categories st_short Agency)) \<union> {''Other''}"
  by (simp add: consolidate_agencies_def st_short_def rec_AZ_def rewrite_agency_def
      indexOf_def splice_def no_categories_def)

text \<open>
  C1, amended: for a cutoff \<open>N \<ge> 0\<close> the agency list becomes its first \<open>N\<close> names (all
  of them when there are fewer) followed by \<open>Other\<close>, so it has \<open>min N len + 1\<close> entries,
  which is \<open>N + 1\<close> when at least \<open>N\<close> agencies were listed; and every record whose
  agency occurs in the original list ends with an agency that is one of the first \<open>N\<close>
  names or \<open>Other\<close>, and, when the list has no duplicates, with no excluded name other
  than \<open>Other\<close> itself.
\<close>

theorem consolidate_agencies_amended:
  assumes "0 \<le> n"
  shows "categories (consolidate_agencies n st) Agency
           = take (nat n) (categories st Agency) @ [''Other'']
       \<and> length (categories (consolidate_agencies n st) Agency)
           = min (nat n) (length (categories st Agency)) + 1
       \<and> (nat n \<le> length (categories st Agency) \<longrightarrow>
            length (categories (consolidate_agencies n st) Agency) = nat n + 1)
       \<and> length (amounts (consolidate_agencies n st)) = length (amounts st)
       \<and> (\<forall>i < length (amounts st).
            agency (amounts st ! i) \<in> set (categories st Agency) \<longrightarrow>
              agency (amounts (consolidate_agencies n st) ! i)
                \<in> set (take (nat n) (categories st Agency)) \<union> {''Other''}
            \<and> (distinct (categories st Agency) \<longrightarrow>
                 agency (amounts (consolidate_agencies n st) ! i) \<noteq> ''Other'' \<longrightarrow>
                 agency (amounts (consolidate_agencies n st) ! i)
                   \<notin> set (drop (nat n) (categories st Agency))))"
proof -
  let ?cs = "categories st Agency"
  have cats: "categories (consolidate_agencies n st) Agency = take (nat n) ?cs @ [''Other'']"
    using assms by (simp add: consolidate_categories splice_nonneg)
  have len: "length (categories (consolidate_agencies n st) Agency)
               = min (nat n) (length ?cs) + 1"
    by (simp add: cats min.commute)
  have recs: "agency (amounts (consolidate_agencies n st) ! i)
                \<in> set (take (nat n) ?cs) \<union> {''Other''}
            \<and> (distinct ?cs \<longrightarrow>
                 agency (amounts (consolidate_agencies n st) ! i) \<noteq> ''Other'' \<longrightarrow>
                 agency (amounts (consolidate_agencies n st) ! i) \<notin> set (drop (nat n) ?cs))"
    if i: "i < length (amounts st)" and mem: "agency (amounts st ! i) \<in> set ?cs" for i
  proof (cases "indexOf ?cs (agency (amounts st ! i)) \<ge> n")
    case True
    with i show ?thesis
      by (simp add: consolidate_amounts rewrite_agency_def)
  next
    case False
    with i have same: "agency (amounts (consolidate_agencies n st) ! i) = agency (amounts st ! i)"
      by (simp add: consolidate_amounts rewrite_agency_def)
    from False have "indexOf ?cs (agency (amounts st ! i)) < n" by simp
    from indexOf_below_in_take [OF mem this]
    have tk: "agency (amounts st ! i) \<in> set (take (nat n) ?cs)" .
    have "agency (amounts st ! i) \<notin> set (drop (nat n) ?cs)" if d: "distinct ?cs"
    proof -
      from d have "set (take (nat n) ?cs) \<inter> set (drop (nat n) ?cs) = {}"
        by (rule set_take_disj_set_drop_if_distinct) simp
      with tk show ?thesis by blast
    qed
    with tk same show ?thesis by simp
  qed
  have recs_len: "length (amounts (consolidate_agencies n st)) = length (amounts st)"
    by (simp add: consolidate_amounts)
  have exact: "nat n \<le> length ?cs \<longrightarrow>
            length (categories (consolidate_agencies n st) Agency) = nat n + 1"
    using len by (simp add: min_def)
  from cats len exact recs_len recs show ?thesis by blast
qed

theorem consolidate_agencies_amended_witness:
  "(0::int) \<le> 1 \<and> nat 1 \<le> length (categories st_two Agency) \<and>
   (0::nat) < length (amounts st_two) \<and>
   agency (amounts st_two ! 0) \<in> set (categories st_two Agency) \<and>
   distinct (categories st_two Agency) \<and>
   categories (consolidate_agencies 1 st_two) Agency = [''A'', ''Other''] \<and>
   length (categories (consolidate_agencies 1 st_two) Agency) = 1 + 1 \<and>
   agency (amounts (consolidate_agencies 1 st_two) ! 0) = ''Other'' \<and>
   agency (amounts (consolidate_agencies 1 st_two) ! 1) = ''A'' \<and>
   agency (amounts (consolidate_agencies 1 st_two) ! 1) \<notin> set (drop 1 (categories st_two Agency))"
proof -
  have h: "(0::int) \<le> 1" by simp
  have st: "categories st_two Agency = [''A'', ''B'']" "amounts st_two = [rec_AB, rec_AA]"
    by (simp_all add: st_two_def no_categories_def)
  have ix: "indexOf [''A'', ''B''] ''B'' = 1" "indexOf [''A'', ''B''] ''A'' = 0"
    by (simp_all add: indexOf_def)
  have r0: "amounts (consolidate_agencies 1 st_two) ! 0 = rec_AB\<lparr>agency := ''Other''\<rparr>"
    and r1: "amounts (consolidate_agencies 1 st_two) ! Suc 0 = rec_AA"
    by (simp_all add: consolidate_amounts st rewrite_agency_def ix rec_AB_def rec_AA_def)
  show ?thesis
    using h consolidate_agencies_amended [OF h, of st_two]
    by (simp add: st r0 r1 rec_AB_def rec_AA_def)
qed

text \<open>
  C9: for a cutoff \<open>N \<ge> 0\<close>, a record whose agency does not occur in the agency list is
  left as it is (\<^verbatim>\<open>indexOf\<close> gives \<open>-1\<close>, which is below the cutoff).
\<close>

theorem consolidate_agencies_unlisted_unchanged:
  assumes "0 \<le> n" and "i < length (amounts st)"
    and "agency (amounts st ! i) \<notin> set (categories st Agency)"
  shows "indexOf (categories st Agency) (agency (amounts st ! i)) = - 1
       \<and> amounts (consolidate_agencies n st) ! i = amounts st ! i"
  using assms by (simp add: consolidate_amounts rewrite_agency_def indexOf_notin)

theorem consolidate_agencies_unlisted_unchanged_witness:
  "(0::int) \<le> 2 \<and> (0::nat) < length (amounts st_short) \<and>
   agency (amounts st_short ! 0) \<notin> set (categories st_short Agency) \<and>
   amounts (consolidate_agencies 2 st_short) ! 0 = rec_AZ \<and>
   agency (amounts (consolidate_agencies 2 st_short) ! 0) = ''Z''"
proof -
  have h1: "(0::int) \<le> 2" by simp
  have h2: "0 < length (amounts st_short)" by (simp add: st_short_def)
  have h3: "agency (amounts st_short ! 0) \<notin> set (categories st_short Agency)"
    by (simp add: st_short_def rec_AZ_def no_categories_def)
  show ?thesis
    using h1 h2 h3 consolidate_agencies_unlisted_unchanged [OF h1 h2 h3]
    by (simp add: st_short_def rec_AZ_def)
qed

section \<open>Category loader\<close>

lemma push_results_ok:
  "\<forall>r \<in> set rs. result_amount r \<noteq> 0 \<longrightarrow> category_of (result_type r) \<noteq> None \<Longrightarrow>
   push_results rs cats =
     Inr (\<lambda>c. cats c @ map (\<lambda>r. (result_id r, result_name r))
                          [r \<leftarrow> rs. result_amount r \<noteq> 0 \<and> category_of (result_type r) = Some c])"
proof (induction rs arbitrary: cats)
  case Nil
  show ?case by simp
next
  case (Cons r rs)
  from Cons.prems
  have rest: "\<forall>r \<in> set rs. result_amount r \<noteq> 0 \<longrightarrow> category_of (result_type r) \<noteq> None"
    by simp
  show ?case
  proof (cases "result_amount r = 0")
    case True
    then show ?thesis using Cons.IH [OF rest] by simp
  next
    case False
    with Cons.prems obtain c where c: "category_of (result_type r) = Some c" by auto
    show ?thesis
      using False c Cons.IH [OF rest] by (auto simp: fun_eq_iff)
  qed
qed

text \<open>
  C7: when the three requests succeed and every non-zero result carries one of the three
  category types, the loader returns a table in which each category type holds exactly
  the (identifier, name) pairs of the results of that type with a non-zero amount, in
  the order of the responses; a result whose amount is zero is never stored.
\<close>

theorem download_categories_retains_nonzero:
  assumes "api ''object_class'' = Some r1" and "api ''budget_function'' = Some r2"
    and "api ''agency'' = Some r3"
    and "\<forall>r \<in> set (r1 @ r2 @ r3).
           result_amount r \<noteq> 0 \<longrightarrow> category_of (result_type r) \<noteq> None"
  shows "\<exists>cats. download_categories api = Inr cats \<and>
           (\<forall>c. cats c = map (\<lambda>r. (result_id r, result_name r))
                    [r \<leftarrow> r1 @ r2 @ r3.
                       result_amount r \<noteq> 0 \<and> category_of (result_type r) = Some c])"
proof -
  from assms(4)
  have w1: "\<forall>r \<in> set r1. result_amount r \<noteq> 0 \<longrightarrow> category_of (result_type r) \<noteq> None"
    and w2: "\<forall>r \<in> set r2. result_amount r \<noteq> 0 \<longrightarrow> category_of (result_type r) \<noteq> None"
    and w3: "\<forall>r \<in> set r3. result_amount r \<noteq> 0 \<longrightarrow> category_of (result_type r) \<noteq> None"
    by simp_all
  show ?thesis
    by (simp add: download_categories_def assms(1-3) push_results_ok [OF w1]
        push_results_ok [OF w2] push_results_ok [OF w3] no_categories_def)
qed

theorem download_categories_retains_nonzero_witness:
  "personnel_api ''object_class'' =
     Some [\<lparr>result_id = 1, result_type = ''object_class'', result_name = ''Personnel'',
              result_amount = 100\<rparr>,
           \<lparr>result_id = 2, result_type = ''object_class'', result_name = ''Ghost'',
              result_amount = 0\<rparr>] \<and>
   personnel_api ''budget_function'' = Some [] \<and> personnel_api ''agency'' = Some [] \<and>
   (\<exists>cats. download_categories personnel_api = Inr cats \<and>
      cats Object_class = [(1, ''Personnel'')] \<and> cats Budget_function = [] \<and> cats Agency = [])"
proof -
  let ?r1 = "[\<lparr>result_id = 1::int, result_type = ''object_class'', result_name = ''Personnel'',
                 result_amount = 100\<rparr>,
              \<lparr>result_id = 2, result_type = ''object_class'', result_name = ''Ghost'',
                 result_amount = 0\<rparr>]"
  have h1: "personnel_api ''object_class'' = Some ?r1"
    and h2: "personnel_api ''budget_function'' = Some []"
    and h3: "personnel_api ''agency'' = Some []"
    by (simp_all add: personnel_api_def)
  have h4: "\<forall>r \<in> set (?r1 @ [] @ []).
              result_amount r \<noteq> 0 \<longrightarrow> category_of (result_type r) \<noteq> None"
    by (simp add: category_of_def)
  from download_categories_retains_nonzero [OF h1 h2 h3 h4]
  obtain cats where ok: "download_categories personnel_api = Inr cats"
    and tab: "\<And>c. cats c = map (\<lambda>r. (result_id r, result_name r))
                [r \<leftarrow> ?r1 @ [] @ []. result_amount r \<noteq> 0 \<and> category_of (result_type r) = Some c]"
    by blast
  have "cats Object_class = [(1, ''Personnel'')]" "cats Budget_function = []" "cats Agency = []"
    by (simp_all add: tab category_of_def)
  with ok h1 h2 h3 show ?thesis by blast
qed

section \<open>Graph builder: the loops as lists of links\<close>

lemma sum_filter_loop_eq:
  "sum_filter_loop ar cs as t = foldl (num_add ar) t (map amount (filter (satisfies cs) as))"
  by (induction as arbitrary: t) simp_all

lemma sum_filter_eq:
  "sum_filter ar cs as = total_of ar (map amount (filter (satisfies cs) as))"
  by (simp add: sum_filter_def total_of_def sum_filter_loop_eq)

lemma foldl_plus_sum_list: "foldl (+) (a::real) xs = a + sum_list xs"
  by (induction xs arbitrary: a) simp_all

lemma total_of_exact: "total_of exact xs = sum_list xs"
  by (simp add: total_of_def exact_def foldl_plus_sum_list)

lemma agency_loop_eq:
  "agency_loop ar st bids aids oc bf ags lnks = lnks @ agency_edges ar st bids aids oc bf ags"
  by (induction ags arbitrary: lnks) (simp_all add: agency_edges_def Let_def)

lemma budget_function_edges_Cons:
  "budget_function_edges ar st oids bids aids oc (bf # bfs) =
     (if num_pos ar (sum_filter ar [(Object_class, oc), (Budget_function, bf)] (amounts st))
      then [\<lparr>source = ids_get oids oc, target = ids_get bids bf, names = [oc, bf],
              val = sum_filter ar [(Object_class, oc), (Budget_function, bf)] (amounts st)\<rparr>]
      else [])
     @ agency_edges ar st bids aids oc bf (categories st Agency)
     @ budget_function_edges ar st oids bids aids oc bfs"
  by (simp add: budget_function_edges_def)

lemma budget_function_loop_eq:
  "budget_function_loop ar st oids bids aids oc bfs lnks =
     lnks @ budget_function_edges ar st oids bids aids oc bfs"
proof (induction bfs arbitrary: lnks)
  case Nil
  show ?case by (simp add: budget_function_edges_def)
next
  case (Cons bf bfs)
  show ?case
    by (simp add: Cons.IH agency_loop_eq budget_function_edges_Cons Let_def)
qed

lemma object_class_edges_Cons:
  "object_class_edges ar st oids bids aids (oc # ocs) =
     \<lparr>source = Index 0, target = ids_get oids oc, names = [oc],
        val = sum_filter ar [(Object_class, oc)] (amounts st)\<rparr>
     # budget_function_edges ar st oids bids aids oc (categories st Budget_function)
     @ object_class_edges ar st oids bids aids ocs"
  by (simp add: object_class_edges_def)

lemma object_class_loop_eq:
  "object_class_loop ar st oids bids aids ocs lnks =
     lnks @ object_class_edges ar st oids bids aids ocs"
proof (induction ocs arbitrary: lnks)
  case Nil
  show ?case by (simp add: object_class_edges_def)
next
  case (Cons oc ocs)
  show ?case
    by (simp add: Cons.IH budget_function_loop_eq object_class_edges_Cons Let_def)
qed

lemma gen_ids_loop_nodes:
  "snd (gen_ids_loop cs ids ns) = ns @ map (\<lambda>c. \<lparr>name = c\<rparr>) cs"
  by (induction cs arbitrary: ids ns) simp_all

lemma gen_ids_loop_notin:
  "c \<notin> set cs \<Longrightarrow> fst (gen_ids_loop cs ids ns) c = ids c"
  by (induction cs arbitrary: ids ns) auto

lemma gen_ids_loop_range:
  "fst (gen_ids_loop cs ids ns) c = Some j \<Longrightarrow> ids c = Some j \<or> length ns \<le> j"
proof (induction cs arbitrary: ids ns)
  case Nil
  then show ?case by simp
next
  case (Cons c0 cs)
  let ?ids = "if c0 = ''__proto__'' then ids else ids(c0 \<mapsto> length ns)"
  from Cons.prems have "fst (gen_ids_loop cs ?ids (ns @ [\<lparr>name = c0\<rparr>])) c = Some j"
    by simp
  from Cons.IH [OF this] have "?ids c = Some j \<or> length (ns @ [\<lparr>name = c0\<rparr>]) \<le> j" .
  then show ?case by (auto split: if_splits)
qed

lemma gen_ids_loop_in:
  "c \<in> set cs \<Longrightarrow> c \<noteq> ''__proto__'' \<Longrightarrow>
     \<exists>k < length cs. cs ! k = c \<and> fst (gen_ids_loop cs ids ns) c = Some (length ns + k)"
proof (induction cs arbitrary: ids ns)
  case Nil
  then show ?case by simp
next
  case (Cons c0 cs)
  let ?ids = "if c0 = ''__proto__'' then ids else ids(c0 \<mapsto> length ns)"
  let ?ns = "ns @ [\<lparr>name = c0\<rparr>]"
  show ?case
  proof (cases "c \<in> set cs")
    case True
    from Cons.IH [OF True Cons.prems(2), of ?ids ?ns]
    obtain k where k: "k < length cs" "cs ! k = c"
      "fst (gen_ids_loop cs ?ids ?ns) c = Some (length ?ns + k)"
      by blast
    then have "Suc k < length (c0 # cs)" "(c0 # cs) ! Suc k = c"
      "fst (gen_ids_loop (c0 # cs) ids ns) c = Some (length ns + Suc k)"
      by simp_all
    then show ?thesis by blast
  next
    case False
    with Cons.prems have eq: "c = c0" by simp
    have "fst (gen_ids_loop (c0 # cs) ids ns) c = Some (length ns + 0)"
      using False Cons.prems(2) by (simp add: gen_ids_loop_notin eq)
    moreover have "0 < length (c0 # cs)" "(c0 # cs) ! 0 = c" using eq by simp_all
    ultimately show ?thesis by blast
  qed
qed

lemma gen_ids_nodes: "snd (gen_ids cs ns) = ns @ map (\<lambda>c. \<lparr>name = c\<rparr>) cs"
  by (simp add: gen_ids_def gen_ids_loop_nodes)

lemma ids_get_in:
  assumes "c \<in> set cs" and "c \<noteq> ''__proto__''"
  shows "\<exists>k < length cs. cs ! k = c \<and> ids_get (fst (gen_ids cs ns)) c = Index (length ns + k)"
  using gen_ids_loop_in [OF assms, of Map.empty ns] assms(2)
  by (auto simp: gen_ids_def ids_get_def)

lemma ids_get_not_below:
  "j < length ns \<Longrightarrow> ids_get (fst (gen_ids cs ns)) c \<noteq> Index j"
proof
  assume j: "j < length ns" and eq: "ids_get (fst (gen_ids cs ns)) c = Index j"
  from eq have "fst (gen_ids_loop cs Map.empty ns) c = Some j"
    by (auto simp: ids_get_def gen_ids_def split: if_splits option.splits)
  from gen_ids_loop_range [OF this] j show False by simp
qed

lemma ids_get_inj:
  assumes "c \<in> set cs" and "c' \<in> set cs"
    and "ids_get (fst (gen_ids cs ns)) c = ids_get (fst (gen_ids cs ns)) c'"
  shows "c = c'"
proof (cases "c = ''__proto__'' \<or> c' = ''__proto__''")
  case True
  show ?thesis
  proof (rule ccontr)
    assume ne: "c \<noteq> c'"
    with True consider "c = ''__proto__''" "c' \<noteq> ''__proto__''"
      | "c' = ''__proto__''" "c \<noteq> ''__proto__''" by blast
    then show False
    proof cases
      case 1
      from ids_get_in [OF assms(2) 1(2), of ns] assms(3) 1(1) show False
        by (auto simp: ids_get_def)
    next
      case 2
      from ids_get_in [OF assms(1) 2(2), of ns] assms(3) 2(1) show False
        by (auto simp: ids_get_def)
    qed
  qed
next
  case False
  then have n: "c \<noteq> ''__proto__''" and n': "c' \<noteq> ''__proto__''" by simp_all
  from ids_get_in [OF assms(1) n, of ns] obtain k
    where k: "cs ! k = c" "ids_get (fst (gen_ids cs ns)) c = Index (length ns + k)" by blast
  from ids_get_in [OF assms(2) n', of ns] obtain k'
    where k': "cs ! k' = c'" "ids_get (fst (gen_ids cs ns)) c' = Index (length ns + k')" by blast
  from k(2) k'(2) assms(3) have "k = k'" by simp
  with k(1) k'(1) show ?thesis by simp
qed

lemma nodes1_eq: "nodes1 st = root_nodes @ map (\<lambda>c. \<lparr>name = c\<rparr>) (categories st Object_class)"
  by (simp add: nodes1_def gen_ids_nodes)

lemma nodes2_eq:
  "nodes2 st = root_nodes @ map (\<lambda>c. \<lparr>name = c\<rparr>) (categories st Object_class)
                 @ map (\<lambda>c. \<lparr>name = c\<rparr>) (categories st Budget_function)"
  by (simp add: nodes2_def gen_ids_nodes nodes1_eq)

lemma create_graph_nodes:
  "nodes (create_graph ar st) =
     root_nodes @ map (\<lambda>c. \<lparr>name = c\<rparr>) (categories st Object_class)
       @ map (\<lambda>c. \<lparr>name = c\<rparr>) (categories st Budget_function)
       @ map (\<lambda>c. \<lparr>name = c\<rparr>) (categories st Agency)"
  by (simp add: create_graph_def Let_def split_beta gen_ids_nodes)

lemma create_graph_links:
  "links (create_graph ar st) =
     object_class_edges ar st (object_class_ids st) (budget_function_ids st) (agency_ids st)
       (categories st Object_class)"
  by (simp add: create_graph_def Let_def split_beta object_class_loop_eq object_class_ids_def
      budget_function_ids_def agency_ids_def nodes1_def nodes2_def)

lemma length_root_nodes: "length root_nodes = 1"
  by (simp add: root_nodes_def)

lemma object_class_ids_in:
  assumes "oc \<in> set (categories st Object_class)" and "oc \<noteq> ''__proto__''"
  shows "\<exists>j. ids_get (object_class_ids st) oc = Index j \<and> 0 < j
             \<and> j < length (nodes (create_graph ar st))
             \<and> name (nodes (create_graph ar st) ! j) = oc"
proof -
  let ?ocs = "categories st Object_class"
  from ids_get_in [OF assms, of root_nodes] obtain k
    where k: "k < length ?ocs" "?ocs ! k = oc"
      "ids_get (object_class_ids st) oc = Index (1 + k)"
    by (auto simp: object_class_ids_def length_root_nodes)
  have "nodes (create_graph ar st) ! (1 + k) = \<lparr>name = oc\<rparr>"
    using k(1,2) by (simp add: create_graph_nodes root_nodes_def nth_append)
  moreover have "1 + k < length (nodes (create_graph ar st))"
    using k(1) by (simp add: create_graph_nodes root_nodes_def)
  ultimately show ?thesis using k(3) by simp
qed

lemma object_class_ids_nonzero: "ids_get (object_class_ids st) oc \<noteq> Index 0"
  unfolding object_class_ids_def by (rule ids_get_not_below) (simp add: root_nodes_def)

lemma budget_function_ids_nonzero: "ids_get (budget_function_ids st) bf \<noteq> Index 0"
  unfolding budget_function_ids_def
  by (rule ids_get_not_below) (simp add: nodes1_eq root_nodes_def)

lemma mem_agency_edges:
  "l \<in> set (agency_edges ar st bids aids oc bf ags) \<longleftrightarrow>
     (\<exists>ag \<in> set ags.
        num_pos ar (sum_filter ar [(Object_class, oc), (Budget_function, bf), (Agency, ag)]
                      (amounts st)) \<and>
        l = \<lparr>source = ids_get bids bf, target = ids_get aids ag, names = [oc, bf, ag],
              val = sum_filter ar [(Object_class, oc), (Budget_function, bf), (Agency, ag)]
                      (amounts st)\<rparr>)"
  by (auto simp: agency_edges_def split: if_splits)

lemma mem_budget_function_edges:
  "l \<in> set (budget_function_edges ar st oids bids aids oc bfs) \<longleftrightarrow>
     (\<exists>bf \<in> set bfs.
        (num_pos ar (sum_filter ar [(Object_class, oc), (Budget_function, bf)] (amounts st)) \<and>
         l = \<lparr>source = ids_get oids oc, target = ids_get bids bf, names = [oc, bf],
               val = sum_filter ar [(Object_class, oc), (Budget_function, bf)] (amounts st)\<rparr>)
        \<or> l \<in> set (agency_edges ar st bids aids oc bf (categories st Agency)))"
  by (auto simp: budget_function_edges_def split: if_splits)

lemma mem_object_class_edges:
  "l \<in> set (object_class_edges ar st oids bids aids ocs) \<longleftrightarrow>
     (\<exists>oc \<in> set ocs.
        l = \<lparr>source = Index 0, target = ids_get oids oc, names = [oc],
              val = sum_filter ar [(Object_class, oc)] (amounts st)\<rparr>
        \<or> l \<in> set (budget_function_edges ar st oids bids aids oc (categories st Budget_function)))"
  by (auto simp: object_class_edges_def)

lemma satisfies1: "satisfies [(Object_class, oc)] = (\<lambda>a. object_class a = oc)"
  by (auto simp: fun_eq_iff)

lemma satisfies2:
  "satisfies [(Object_class, oc), (Budget_function, bf)]
     = (\<lambda>a. object_class a = oc \<and> budget_function a = bf)"
  by (auto simp: fun_eq_iff)

lemma satisfies3:
  "satisfies [(Object_class, oc), (Budget_function, bf), (Agency, ag)]
     = (\<lambda>a. object_class a = oc \<and> budget_function a = bf \<and> agency a = ag)"
  by (auto simp: fun_eq_iff)

lemma filter_agency_edges:
  "ids_get bids bf \<noteq> Index 0 \<Longrightarrow>
     [l \<leftarrow> agency_edges ar st bids aids oc bf ags. source l = Index 0] = []"
  by (auto simp: filter_empty_conv mem_agency_edges)

lemma filter_budget_function_edges:
  "ids_get oids oc \<noteq> Index 0 \<Longrightarrow> \<forall>bf \<in> set bfs. ids_get bids bf \<noteq> Index 0 \<Longrightarrow>
     [l \<leftarrow> budget_function_edges ar st oids bids aids oc bfs. source l = Index 0] = []"
  by (auto simp: filter_empty_conv mem_budget_function_edges mem_agency_edges)

lemma filter_object_class_edges:
  "\<forall>oc \<in> set ocs. ids_get oids oc \<noteq> Index 0 \<Longrightarrow>
   \<forall>bf \<in> set (categories st Budget_function). ids_get bids bf \<noteq> Index 0 \<Longrightarrow>
     [l \<leftarrow> object_class_edges ar st oids bids aids ocs. source l = Index 0]
       = map (\<lambda>oc. \<lparr>source = Index 0, target = ids_get oids oc, names = [oc],
                      val = sum_filter ar [(Object_class, oc)] (amounts st)\<rparr>) ocs"
proof (induction ocs)
  case Nil
  show ?case by (simp add: object_class_edges_def)
next
  case (Cons oc ocs)
  then show ?case
    by (simp add: object_class_edges_Cons filter_budget_function_edges)
qed

lemma root_edges_list:
  "[l \<leftarrow> links (create_graph ar st). source l = Index 0]
     = map (\<lambda>oc. \<lparr>source = Index 0, target = ids_get (object_class_ids st) oc, names = [oc],
                    val = total_of ar (map amount [a \<leftarrow> amounts st. object_class a = oc])\<rparr>)
         (categories st Object_class)"
  by (simp add: create_graph_links filter_object_class_edges object_class_ids_nonzero
      budget_function_ids_nonzero sum_filter_eq satisfies1)

lemma object_class_ids_inj:
  "oc \<in> set (categories st Object_class) \<Longrightarrow> oc' \<in> set (categories st Object_class) \<Longrightarrow>
     ids_get (object_class_ids st) oc' = ids_get (object_class_ids st) oc \<longleftrightarrow> oc' = oc"
  unfolding object_class_ids_def using ids_get_inj by blast

lemma root_edge_unique:
  assumes d: "distinct (categories st Object_class)"
    and oc: "oc \<in> set (categories st Object_class)"
  shows "length [l \<leftarrow> links (create_graph ar st).
                   source l = Index 0 \<and> target l = ids_get (object_class_ids st) oc] = 1"
proof -
  let ?ocs = "categories st Object_class"
  let ?mk = "\<lambda>oc. \<lparr>source = Index 0, target = ids_get (object_class_ids st) oc, names = [oc],
                    val = total_of ar (map amount [a \<leftarrow> amounts st. object_class a = oc])\<rparr>"
  have "[l \<leftarrow> links (create_graph ar st).
           source l = Index 0 \<and> target l = ids_get (object_class_ids st) oc]
          = [l \<leftarrow> [l \<leftarrow> links (create_graph ar st). source l = Index 0].
               target l = ids_get (object_class_ids st) oc]"
    by (simp add: conj_commute)
  also have "\<dots> = map ?mk [oc' \<leftarrow> ?ocs.
                     ids_get (object_class_ids st) oc' = ids_get (object_class_ids st) oc]"
    by (simp add: root_edges_list filter_map comp_def)
  also have "[oc' \<leftarrow> ?ocs. ids_get (object_class_ids st) oc' = ids_get (object_class_ids st) oc]
               = [oc' \<leftarrow> ?ocs. oc' = oc]"
    using oc by (intro filter_cong refl) (simp add: object_class_ids_inj)
  finally have "length [l \<leftarrow> links (create_graph ar st).
                   source l = Index 0 \<and> target l = ids_get (object_class_ids st) oc]
                = length [oc' \<leftarrow> ?ocs. oc' = oc]"
    by simp
  also have "\<dots> = card ({x. x = oc} \<inter> set ?ocs)"
    using d by (rule distinct_length_filter)
  also have "{x. x = oc} \<inter> set ?ocs = {oc}" using oc by auto
  finally show ?thesis by simp
qed

section \<open>Evaluating the double arithmetic\<close>

lemma normalise_numeral:
  "normalise (numeral k) m e =
     (if m < 2 ^ 52 \<and> - 1074 < e then normalise (pred_numeral k) (2 * m) (e - 1)
      else if 2 ^ 53 \<le> m then normalise (pred_numeral k) (m / 2) (e + 1)
      else (m, e))"
  by (simp add: numeral_eq_Suc)

lemmas double_eval = double_def round_double_def normalise_numeral round_half_even_def scale2_def

lemmas graph_eval = create_graph_def no_categories_def gen_ids_def ids_get_def root_nodes_def
  YEAR_def sum_filter_def Let_def

lemma scenario_graph:
  "create_graph double st_scenario =
     \<lparr>nodes = [\<lparr>name = ''USA FY 2019 Spending''\<rparr>, \<lparr>name = ''A''\<rparr>, \<lparr>name = ''B''\<rparr>,
                \<lparr>name = ''X''\<rparr>, \<lparr>name = ''Y''\<rparr>, \<lparr>name = ''W''\<rparr>],
      links = [\<lparr>source = Index 0, target = Index 1, names = [''A''], val = 80\<rparr>,
               \<lparr>source = Index 1, target = Index 2, names = [''A'', ''B''], val = 80\<rparr>,
               \<lparr>source = Index 2, target = Index 3, names = [''A'', ''B'', ''X''], val = 50\<rparr>,
               \<lparr>source = Index 2, target = Index 4, names = [''A'', ''B'', ''Y''], val = 30\<rparr>]\<rparr>"
  by (simp add: graph_eval st_scenario_def double_eval)

lemma half_links:
  "links (create_graph double st_half)
     = [\<lparr>source = Index 0, target = Index 1, names = [''A''], val = 4503599627370496\<rparr>,
        \<lparr>source = Index 0, target = Object_prototype, names = [''__proto__''], val = 0\<rparr>]"
  by (simp add: graph_eval st_half_def double_eval)

lemma cancel_links:
  "links (create_graph double st_cancel)
     = [\<lparr>source = Index 0, target = Index 1, names = [''A''], val = 2\<rparr>,
        \<lparr>source = Index 1, target = Index 3, names = [''A'', ''C''], val = 2\<rparr>,
        \<lparr>source = Index 3, target = Index 4, names = [''A'', ''C'', ''Other''], val = 2\<rparr>]"
  by (simp add: graph_eval st_cancel_def double_eval)

lemma negative_links:
  "links (create_graph double st_negative)
     = [\<lparr>source = Index 0, target = Index 1, names = [''A''], val = - 5\<rparr>]"
  by (simp add: graph_eval st_negative_def double_eval)

section \<open>Graph builder: root edges\<close>

text \<open>
  C2 as stated fails. In double arithmetic the amounts \<open>1/2\<close>, \<open>2^52\<close>, \<open>1/2\<close> of
  object class \<open>A\<close> add up, in array order, to \<open>2^52 = 4503599627370496\<close>, which is the
  value of the root edge, while their sum is \<open>2^52 + 1\<close>; and the root edge of an object
  class named \<^verbatim>\<open>__proto__\<close> has \<^verbatim>\<open>Object.prototype\<close> as its target, not a node.
\<close>

theorem create_graph_root_edges_counterexample:
  "links (create_graph double st_half)
     = [\<lparr>source = Index 0, target = Index 1, names = [''A''], val = 4503599627370496\<rparr>,
        \<lparr>source = Index 0, target = Object_prototype, names = [''__proto__''], val = 0\<rparr>]
   \<and> sum_list (map amount (amounts st_half)) = 4503599627370497
   \<and> map object_class (amounts st_half) = [''A'', ''A'', ''A'']"
  by (simp add: graph_eval st_half_def double_eval)

text \<open>
  C2, amended: in every arithmetic, the links leaving node 0 are, in the order of the
  object-class list, one per entry of that list, pushed without any test on the total:
  the label is the one-element path of the name, and the value is the total of the
  amounts of all records with that object class (budget function and agency play no
  part), added in array order from 0 with the addition of the arithmetic. For every
  name other than \<^verbatim>\<open>__proto__\<close> the target is the index of that object class's node.
  With distinct names there is exactly one link from the root with the target of each
  object class. In exact arithmetic the total is the sum of those amounts.
\<close>

theorem create_graph_root_edges:
  "[l \<leftarrow> links (create_graph ar st). source l = Index 0]
     = map (\<lambda>oc. \<lparr>source = Index 0, target = ids_get (object_class_ids st) oc, names = [oc],
                    val = total_of ar (map amount [a \<leftarrow> amounts st. object_class a = oc])\<rparr>)
         (categories st Object_class)
   \<and> (\<forall>oc \<in> set (categories st Object_class). oc \<noteq> ''__proto__'' \<longrightarrow>
        (\<exists>j. ids_get (object_class_ids st) oc = Index j \<and> 0 < j
           \<and> j < length (nodes (create_graph ar st))
           \<and> name (nodes (create_graph ar st) ! j) = oc))
   \<and> (distinct (categories st Object_class) \<longrightarrow>
        (\<forall>oc \<in> set (categories st Object_class).
           length [l \<leftarrow> links (create_graph ar st).
                     source l = Index 0 \<and> target l = ids_get (object_class_ids st) oc] = 1))
   \<and> total_of exact xs = sum_list xs"
  using root_edges_list [of ar st] object_class_ids_in [of _ st ar] root_edge_unique [of st _ ar]
    total_of_exact [of xs]
  by blast

lemma scenario_object_class_ids: "ids_get (object_class_ids st_scenario) ''A'' = Index 1"
  by (simp add: object_class_ids_def st_scenario_def gen_ids_def ids_get_def root_nodes_def
      no_categories_def)

theorem create_graph_root_edges_witness:
  "''A'' \<in> set (categories st_scenario Object_class) \<and> ''A'' \<noteq> ''__proto__'' \<and>
   distinct (categories st_scenario Object_class) \<and>
   [l \<leftarrow> links (create_graph double st_scenario). source l = Index 0]
     = [\<lparr>source = Index 0, target = Index 1, names = [''A''], val = 80\<rparr>] \<and>
   name (nodes (create_graph double st_scenario) ! 1) = ''A'' \<and>
   length [l \<leftarrow> links (create_graph double st_scenario).
             source l = Index 0 \<and> target l = ids_get (object_class_ids st_scenario) ''A''] = 1 \<and>
   [l \<leftarrow> links (create_graph exact st_root_only). source l = Index 0]
     = [\<lparr>source = Index 0, target = Index 1, names = [''A''], val = 0\<rparr>]"
proof -
  have cats: "categories st_scenario Object_class = [''A'']"
    "categories st_root_only Object_class = [''A'']"
    by (simp_all add: st_scenario_def st_root_only_def no_categories_def)
  have tot: "total_of double (map amount [a \<leftarrow> amounts st_scenario. object_class a = ''A'']) = 80"
    by (simp add: st_scenario_def total_of_def double_eval)
  have tot0: "sum_list (map amount [a \<leftarrow> amounts st_root_only. object_class a = ''A'']) = 0"
    by (simp add: st_root_only_def)
  have nd: "name (nodes (create_graph double st_scenario) ! 1) = ''A''"
    by (simp add: scenario_graph)
  have ids: "ids_get (object_class_ids st_root_only) ''A'' = Index 1"
    by (simp add: object_class_ids_def st_root_only_def gen_ids_def ids_get_def root_nodes_def
        no_categories_def)
  show ?thesis
    using create_graph_root_edges [of double st_scenario]
      create_graph_root_edges [of exact st_root_only, THEN conjunct1] nd
    by (simp add: cats tot tot0 scenario_object_class_ids ids)
qed

section \<open>Graph builder: deeper edges\<close>

lemma mem_links:
  "l \<in> set (links (create_graph ar st)) \<longleftrightarrow>
     (\<exists>oc \<in> set (categories st Object_class).
        l = \<lparr>source = Index 0, target = ids_get (object_class_ids st) oc, names = [oc],
              val = total_of ar (map amount [a \<leftarrow> amounts st. object_class a = oc])\<rparr>
        \<or> (\<exists>bf \<in> set (categories st Budget_function).
              (num_pos ar (total_of ar (map amount
                  [a \<leftarrow> amounts st. object_class a = oc \<and> budget_function a = bf])) \<and>
               l = \<lparr>source = ids_get (object_class_ids st) oc,
                     target = ids_get (budget_function_ids st) bf,
                     names = [oc, bf],
                     val = total_of ar (map amount
                       [a \<leftarrow> amounts st. object_class a = oc \<and> budget_function a = bf])\<rparr>)
              \<or> (\<exists>ag \<in> set (categories st Agency).
                    num_pos ar (total_of ar (map amount
                      [a \<leftarrow> amounts st. object_class a = oc \<and> budget_function a = bf
                                    \<and> agency a = ag])) \<and>
                    l = \<lparr>source = ids_get (budget_function_ids st) bf,
                          target = ids_get (agency_ids st) ag,
                          names = [oc, bf, ag],
                          val = total_of ar (map amount
                            [a \<leftarrow> amounts st. object_class a = oc \<and> budget_function a = bf
                                    \<and> agency a = ag])\<rparr>)))"
  by (simp add: create_graph_links mem_object_class_edges mem_budget_function_edges
      mem_agency_edges sum_filter_eq satisfies1 satisfies2 satisfies3)

lemma links_two:
  "l \<in> set (links (create_graph ar st)) \<and> names l = [oc, bf] \<longleftrightarrow>
      oc \<in> set (categories st Object_class) \<and> bf \<in> set (categories st Budget_function) \<and>
      num_pos ar (total_of ar (map amount
        [a \<leftarrow> amounts st. object_class a = oc \<and> budget_function a = bf])) \<and>
      l = \<lparr>source = ids_get (object_class_ids st) oc,
            target = ids_get (budget_function_ids st) bf,
            names = [oc, bf],
            val = total_of ar (map amount
              [a \<leftarrow> amounts st. object_class a = oc \<and> budget_function a = bf])\<rparr>"
  unfolding mem_links by auto

lemma links_three:
  "l \<in> set (links (create_graph ar st)) \<and> names l = [oc, bf, ag] \<longleftrightarrow>
      oc \<in> set (categories st Object_class) \<and> bf \<in> set (categories st Budget_function) \<and>
      ag \<in> set (categories st Agency) \<and>
      num_pos ar (total_of ar (map amount
        [a \<leftarrow> amounts st. object_class a = oc \<and> budget_function a = bf \<and> agency a = ag])) \<and>
      l = \<lparr>source = ids_get (budget_function_ids st) bf, target = ids_get (agency_ids st) ag,
            names = [oc, bf, ag],
            val = total_of ar (map amount
              [a \<leftarrow> amounts st.
                 object_class a = oc \<and> budget_function a = bf \<and> agency a = ag])\<rparr>"
  unfolding mem_links by auto

lemma edge_two_exists:
  "(\<exists>l \<in> set (links (create_graph ar st)). names l = [oc, bf]) \<longleftrightarrow>
      oc \<in> set (categories st Object_class) \<and> bf \<in> set (categories st Budget_function) \<and>
      num_pos ar (total_of ar (map amount
        [a \<leftarrow> amounts st. object_class a = oc \<and> budget_function a = bf]))"
  (is "?L \<longleftrightarrow> ?R")
proof
  assume ?L
  then obtain l where "l \<in> set (links (create_graph ar st)) \<and> names l = [oc, bf]" by blast
  then show ?R by (simp add: links_two)
next
  assume r: ?R
  let ?l = "\<lparr>source = ids_get (object_class_ids st) oc,
            target = ids_get (budget_function_ids st) bf,
            names = [oc, bf],
            val = total_of ar (map amount
              [a \<leftarrow> amounts st. object_class a = oc \<and> budget_function a = bf])\<rparr>"
  from r have "?l \<in> set (links (create_graph ar st)) \<and> names ?l = [oc, bf]"
    by (subst links_two) simp
  then show ?L by blast
qed

lemma edge_three_exists:
  "(\<exists>l \<in> set (links (create_graph ar st)). names l = [oc, bf, ag]) \<longleftrightarrow>
      oc \<in> set (categories st Object_class) \<and> bf \<in> set (categories st Budget_function) \<and>
      ag \<in> set (categories st Agency) \<and>
      num_pos ar (total_of ar (map amount
        [a \<leftarrow> amounts st. object_class a = oc \<and> budget_function a = bf \<and> agency a = ag]))"
  (is "?L \<longleftrightarrow> ?R")
proof
  assume ?L
  then obtain l where "l \<in> set (links (create_graph ar st)) \<and> names l = [oc, bf, ag]" by blast
  then show ?R by (simp add: links_three)
next
  assume r: ?R
  let ?l = "\<lparr>source = ids_get (budget_function_ids st) bf, target = ids_get (agency_ids st) ag,
            names = [oc, bf, ag],
            val = total_of ar (map amount
              [a \<leftarrow> amounts st.
                 object_class a = oc \<and> budget_function a = bf \<and> agency a = ag])\<rparr>"
  from r have "?l \<in> set (links (create_graph ar st)) \<and> names ?l = [oc, bf, ag]"
    by (subst links_three) simp
  then show ?L by blast
qed

lemma edge_two_shape:
  assumes "l \<in> set (links (create_graph ar st))" and "names l = [oc, bf]"
  shows "source l = ids_get (object_class_ids st) oc \<and>
        target l = ids_get (budget_function_ids st) bf \<and>
        val l = total_of ar (map amount
          [a \<leftarrow> amounts st. object_class a = oc \<and> budget_function a = bf])"
proof -
  from assms have "l \<in> set (links (create_graph ar st)) \<and> names l = [oc, bf]" by simp
  then show ?thesis by (simp add: links_two)
qed

lemma edge_three_shape:
  assumes "l \<in> set (links (create_graph ar st))" and "names l = [oc, bf, ag]"
  shows "source l = ids_get (budget_function_ids st) bf \<and>
        target l = ids_get (agency_ids st) ag \<and>
        val l = total_of ar (map amount
          [a \<leftarrow> amounts st. object_class a = oc \<and> budget_function a = bf \<and> agency a = ag])"
proof -
  from assms have "l \<in> set (links (create_graph ar st)) \<and> names l = [oc, bf, ag]" by simp
  then show ?thesis by (simp add: links_three)
qed

lemma num_pos_exact: "num_pos exact x \<longleftrightarrow> 0 < x"
  by (simp add: exact_def)

text \<open>
  C3 as stated fails. In double arithmetic the amounts \<open>10^16\<close>, \<open>1\<close>, \<open>-10^16\<close> under
  \<open>(A, B)\<close> have the sum 1 but add up to 0, so no link labelled \<open>[A, B]\<close> is pushed; the
  amounts \<open>-2^53\<close>, \<open>-1\<close>, \<open>-1\<close>, \<open>2^53 + 2\<close> under \<open>(A, C)\<close> have the sum 0 but add up to
  2, so the links \<open>[A, C]\<close> and \<open>[A, C, Other]\<close> are pushed.
\<close>

theorem create_graph_deeper_edges_counterexample:
  "links (create_graph double st_cancel)
     = [\<lparr>source = Index 0, target = Index 1, names = [''A''], val = 2\<rparr>,
        \<lparr>source = Index 1, target = Index 3, names = [''A'', ''C''], val = 2\<rparr>,
        \<lparr>source = Index 3, target = Index 4, names = [''A'', ''C'', ''Other''], val = 2\<rparr>]
   \<and> map budget_function (amounts st_cancel) = [''B'', ''B'', ''B'', ''C'', ''C'', ''C'', ''C'']
   \<and> sum_list (map amount (take 3 (amounts st_cancel))) = 1
   \<and> sum_list (map amount (drop 3 (amounts st_cancel))) = 0"
  by (simp add: graph_eval st_cancel_def double_eval)

text \<open>
  C3, amended: in every arithmetic, a link labelled with the path (object class, budget
  function) exists exactly when both names are in their category lists and the total of
  the amounts of the records matching both, added in array order from 0 with the addition
  of the arithmetic, passes the test \<^verbatim>\<open>total > 0\<close>; a link labelled (object class, budget
  function, agency) exists exactly when the three names are listed and the total over the
  records matching all three passes that test. Such a link has the index entries of its
  last two names as source and target and carries that total; a path whose total is not
  greater than 0 has no link. In exact arithmetic the total is the sum of the amounts and
  the test is that the sum is strictly positive.
\<close>

theorem create_graph_deeper_edges:
  "((\<exists>l \<in> set (links (create_graph ar st)). names l = [oc, bf]) \<longleftrightarrow>
      oc \<in> set (categories st Object_class) \<and> bf \<in> set (categories st Budget_function) \<and>
      num_pos ar (total_of ar (map amount
        [a \<leftarrow> amounts st. object_class a = oc \<and> budget_function a = bf])))
   \<and> ((\<exists>l \<in> set (links (create_graph ar st)). names l = [oc, bf, ag]) \<longleftrightarrow>
      oc \<in> set (categories st Object_class) \<and> bf \<in> set (categories st Budget_function) \<and>
      ag \<in> set (categories st Agency) \<and>
      num_pos ar (total_of ar (map amount
        [a \<leftarrow> amounts st. object_class a = oc \<and> budget_function a = bf \<and> agency a = ag])))
   \<and> (\<forall>l \<in> set (links (create_graph ar st)). names l = [oc, bf] \<longrightarrow>
        source l = ids_get (object_class_ids st) oc \<and>
        target l = ids_get (budget_function_ids st) bf \<and>
        val l = total_of ar (map amount
          [a \<leftarrow> amounts st. object_class a = oc \<and> budget_function a = bf]))
   \<and> (\<forall>l \<in> set (links (create_graph ar st)). names l = [oc, bf, ag] \<longrightarrow>
        source l = ids_get (budget_function_ids st) bf \<and>
        target l = ids_get (agency_ids st) ag \<and>
        val l = total_of ar (map amount
          [a \<leftarrow> amounts st. object_class a = oc \<and> budget_function a = bf \<and> agency a = ag]))
   \<and> total_of exact xs = sum_list xs
   \<and> (num_pos exact x \<longleftrightarrow> 0 < x)"
  apply (intro conjI ballI impI)
         apply (rule edge_two_exists)
        apply (rule edge_three_exists)
       apply (simp_all only: edge_two_shape edge_three_shape total_of_exact num_pos_exact)
  done

theorem create_graph_deeper_edges_witness:
  "''A'' \<in> set (categories st_scenario Object_class) \<and>
   ''B'' \<in> set (categories st_scenario Budget_function) \<and>
   ''X'' \<in> set (categories st_scenario Agency) \<and>
   ''W'' \<in> set (categories st_scenario Agency) \<and>
   (\<exists>l \<in> set (links (create_graph double st_scenario)). names l = [''A'', ''B'']) \<and>
   (\<exists>l \<in> set (links (create_graph double st_scenario)). names l = [''A'', ''B'', ''X'']) \<and>
   \<not> (\<exists>l \<in> set (links (create_graph double st_scenario)). names l = [''A'', ''B'', ''W''])"
proof -
  have cats: "categories st_scenario Object_class = [''A'']"
    "categories st_scenario Budget_function = [''B'']"
    "categories st_scenario Agency = [''X'', ''Y'', ''W'']"
    by (simp_all add: st_scenario_def no_categories_def)
  have sums:
    "total_of double (map amount
       [a \<leftarrow> amounts st_scenario. object_class a = ''A'' \<and> budget_function a = ''B'']) = 80"
    "total_of double (map amount
       [a \<leftarrow> amounts st_scenario. object_class a = ''A'' \<and> budget_function a = ''B''
        \<and> agency a = ''X'']) = 50"
    "total_of double (map amount
       [a \<leftarrow> amounts st_scenario. object_class a = ''A'' \<and> budget_function a = ''B''
        \<and> agency a = ''W'']) = 0"
    by (simp_all add: st_scenario_def total_of_def double_eval)
  have pos: "num_pos double 80" "num_pos double 50" "\<not> num_pos double 0"
    by (simp_all add: double_def)
  note x = create_graph_deeper_edges [of double st_scenario "''A''" "''B''" "''X''"]
  note w = create_graph_deeper_edges [of double st_scenario "''A''" "''B''" "''W''"]
  from x [THEN conjunct1] x [THEN conjunct2, THEN conjunct1] w [THEN conjunct2, THEN conjunct1]
  show ?thesis by (simp add: cats sums pos)
qed

section \<open>Graph builder: values of the links\<close>




section \<open>Layout adjuster: the two inner loops\<close>

lemma exact_ops:
  "num_add exact = (+)" "num_sub exact = (-)" "num_div exact = (/)" "num_of_nat exact = real"
  by (simp_all add: exact_def)

lemma place_length: "length (fst (place ar sp y is (ns, lks))) = length ns"
  by (induction "is" arbitrary: y ns lks) (simp_all add: Let_def)

lemma place_nth_notin:
  "j \<notin> set is \<Longrightarrow> fst (place ar sp y is (ns, lks)) ! j = ns ! j"
  by (induction "is" arbitrary: y ns lks) (simp_all add: Let_def)

lemma place_frame:
  "j < length ns \<Longrightarrow>
     layer (fst (place ar sp y is (ns, lks)) ! j) = layer (ns ! j) \<and>
     sourceLinks (fst (place ar sp y is (ns, lks)) ! j) = sourceLinks (ns ! j) \<and>
     targetLinks (fst (place ar sp y is (ns, lks)) ! j) = targetLinks (ns ! j)"
proof (induction "is" arbitrary: y ns lks)
  case Nil
  show ?case by simp
next
  case (Cons i rest)
  let ?off = "num_sub ar y (y0 (ns ! i))"
  let ?node' = "(ns ! i)\<lparr>y0 := num_add ar (y0 (ns ! i)) ?off,
                          y1 := num_add ar (y1 (ns ! i)) ?off\<rparr>"
  from Cons.prems have j: "j < length (ns[i := ?node'])" by simp
  have step: "layer (ns[i := ?node'] ! j) = layer (ns ! j) \<and>
     sourceLinks (ns[i := ?node'] ! j) = sourceLinks (ns ! j) \<and>
     targetLinks (ns[i := ?node'] ! j) = targetLinks (ns ! j)"
    using Cons.prems by (cases "i = j") simp_all
  show ?case
    using Cons.IH [OF j] step by (simp add: Let_def)
qed

lemma place_height:
  "j < length ns \<Longrightarrow>
     y1 (fst (place exact sp y is (ns, lks)) ! j) - y0 (fst (place exact sp y is (ns, lks)) ! j)
       = y1 (ns ! j) - y0 (ns ! j)"
proof (induction "is" arbitrary: y ns lks)
  case Nil
  show ?case by simp
next
  case (Cons i rest)
  let ?node' = "(ns ! i)\<lparr>y0 := y0 (ns ! i) + (y - y0 (ns ! i)),
                          y1 := y1 (ns ! i) + (y - y0 (ns ! i))\<rparr>"
  from Cons.prems have j: "j < length (ns[i := ?node'])" by simp
  have step: "y1 (ns[i := ?node'] ! j) - y0 (ns[i := ?node'] ! j) = y1 (ns ! j) - y0 (ns ! j)"
    using Cons.prems by (cases "i = j") simp_all
  show ?case
    using Cons.IH [OF j] step by (simp add: Let_def exact_ops)
qed

lemma shift_sources_zero: "shift_sources exact 0 ks lks = lks"
  by (induction ks arbitrary: lks) (simp_all add: exact_ops)

lemma shift_targets_zero: "shift_targets exact 0 ks lks = lks"
  by (induction ks arbitrary: lks) (simp_all add: exact_ops)

lemma place_balanced_id:
  "placed_from sp y is ns \<Longrightarrow> place exact sp y is (ns, lks) = (ns, lks)"
  by (induction "is" arbitrary: y)
     (simp_all add: Let_def exact_ops shift_sources_zero shift_targets_zero)

lemma placed_from_cong:
  "\<forall>i \<in> set is. ns' ! i = ns ! i \<Longrightarrow> placed_from sp y is ns' = placed_from sp y is ns"
  by (induction "is" arbitrary: y) simp_all

lemma place_establishes:
  "distinct is \<Longrightarrow> \<forall>i \<in> set is. i < length ns \<Longrightarrow>
     placed_from sp y is (fst (place exact sp y is (ns, lks)))"
proof (induction "is" arbitrary: y ns lks)
  case Nil
  show ?case by simp
next
  case (Cons i rest)
  let ?off = "y - y0 (ns ! i)"
  let ?node' = "(ns ! i)\<lparr>y0 := y0 (ns ! i) + ?off, y1 := y1 (ns ! i) + ?off\<rparr>"
  let ?ns1 = "ns[i := ?node']"
  let ?lks1 = "shift_targets exact ?off (targetLinks (ns ! i))
                 (shift_sources exact ?off (sourceLinks (ns ! i)) lks)"
  let ?y' = "y + (y1 (ns ! i) - y0 (ns ! i)) + sp"
  let ?res = "fst (place exact sp ?y' rest (?ns1, ?lks1))"
  from Cons.prems have i: "i < length ns" and notin: "i \<notin> set rest"
    and d: "distinct rest" and rng: "\<forall>k \<in> set rest. k < length ?ns1"
    by simp_all
  have res: "fst (place exact sp y (i # rest) (ns, lks)) = ?res"
    by (simp add: Let_def exact_ops)
  have at_i: "?res ! i = ?node'"
    using place_nth_notin [OF notin, of exact sp ?y' ?ns1 ?lks1] i by simp
  have "placed_from sp ?y' rest ?res"
    by (rule Cons.IH [OF d rng])
  with at_i show ?case
    unfolding res by simp
qed

section \<open>Layout adjuster: one layer, then four\<close>

lemma set_layer_nodes: "set (layer_nodes l ns) = {i. i < length ns \<and> layer (ns ! i) = l}"
  by (auto simp: layer_nodes_def)

lemma distinct_layer_nodes: "distinct (layer_nodes l ns)"
  by (simp add: layer_nodes_def)

lemma layer_nodes_cong:
  assumes "length ns' = length ns" and "\<forall>j < length ns. layer (ns' ! j) = layer (ns ! j)"
  shows "layer_nodes l ns' = layer_nodes l ns"
  unfolding layer_nodes_def using assms by (auto intro: filter_cong)

lemma foldl_heights:
  "foldl (\<lambda>h i. h + f i) (a::real) is = a + (\<Sum>i\<leftarrow>is. f i)"
  by (induction "is" arbitrary: a) simp_all

lemma node_height_exact:
  "node_height exact ns is = (\<Sum>i\<leftarrow>is. y1 (ns ! i) - y0 (ns ! i))"
  by (simp add: node_height_def exact_ops foldl_heights)

lemma node_height_cong:
  assumes "\<forall>i \<in> set is. y1 (ns' ! i) - y0 (ns' ! i) = y1 (ns ! i) - y0 (ns ! i)"
  shows "node_height exact ns' is = node_height exact ns is"
  unfolding node_height_exact using assms
  by (auto intro: arg_cong [where f = sum_list] map_cong)

lemma spacing_exact:
  "spacing exact l ns
     = (real HEIGHT - node_height exact ns (layer_nodes l ns))
       / real (length (layer_nodes l ns) + 1)"
  by (simp add: spacing_def exact_ops)

lemma justify_layer_nodes:
  "fst (justify_layer ar l (ns, lks))
     = fst (place ar (spacing ar l ns) (spacing ar l ns) (layer_nodes l ns) (ns, lks))"
  by (simp add: justify_layer_def Let_def)

lemma justify_layer_length: "length (fst (justify_layer ar l (ns, lks))) = length ns"
  by (simp add: justify_layer_nodes place_length)

lemma justify_layer_frame:
  assumes "j < length ns"
  shows "layer (fst (justify_layer ar l (ns, lks)) ! j) = layer (ns ! j)"
    and "sourceLinks (fst (justify_layer ar l (ns, lks)) ! j) = sourceLinks (ns ! j)"
    and "targetLinks (fst (justify_layer ar l (ns, lks)) ! j) = targetLinks (ns ! j)"
  using place_frame [OF assms, of ar "spacing ar l ns" "spacing ar l ns" "layer_nodes l ns" lks]
  by (simp_all add: justify_layer_nodes)

lemma justify_layer_height:
  assumes "j < length ns"
  shows "y1 (fst (justify_layer exact l (ns, lks)) ! j)
           - y0 (fst (justify_layer exact l (ns, lks)) ! j)
           = y1 (ns ! j) - y0 (ns ! j)"
  using place_height [OF assms, of "spacing exact l ns" "spacing exact l ns"
      "layer_nodes l ns" lks]
  by (simp add: justify_layer_nodes)

lemma justify_layer_untouched:
  assumes "layer (ns ! j) \<noteq> l"
  shows "fst (justify_layer ar l (ns, lks)) ! j = ns ! j"
proof -
  from assms have "j \<notin> set (layer_nodes l ns)" by (simp add: set_layer_nodes)
  then show ?thesis by (simp add: justify_layer_nodes place_nth_notin)
qed

lemma justify_layer_layer_nodes:
  "layer_nodes l' (fst (justify_layer ar l (ns, lks))) = layer_nodes l' ns"
  by (rule layer_nodes_cong) (simp_all add: justify_layer_length justify_layer_frame)

lemma justify_layer_node_height:
  "node_height exact (fst (justify_layer exact l (ns, lks))) (layer_nodes l' ns)
     = node_height exact ns (layer_nodes l' ns)"
  by (rule node_height_cong) (simp add: set_layer_nodes justify_layer_height)

lemma justify_layer_spacing:
  "spacing exact l' (fst (justify_layer exact l (ns, lks))) = spacing exact l' ns"
  by (simp add: spacing_exact justify_layer_layer_nodes justify_layer_node_height)

lemma justify_layer_balanced: "balanced l (fst (justify_layer exact l (ns, lks)))"
proof -
  have "placed_from (spacing exact l ns) (spacing exact l ns) (layer_nodes l ns)
          (fst (place exact (spacing exact l ns) (spacing exact l ns) (layer_nodes l ns)
                  (ns, lks)))"
    by (rule place_establishes) (simp_all add: distinct_layer_nodes set_layer_nodes)
  then have "placed_from (spacing exact l ns) (spacing exact l ns) (layer_nodes l ns)
          (fst (justify_layer exact l (ns, lks)))"
    by (simp only: justify_layer_nodes)
  then show ?thesis
    by (simp only: balanced_def justify_layer_spacing justify_layer_layer_nodes)
qed

lemma justify_layer_other:
  assumes "l' \<noteq> l" and "balanced l' ns"
  shows "balanced l' (fst (justify_layer exact l (ns, lks)))"
proof -
  have "\<forall>i \<in> set (layer_nodes l' ns). fst (justify_layer exact l (ns, lks)) ! i = ns ! i"
    using assms(1) by (simp add: set_layer_nodes justify_layer_untouched)
  from placed_from_cong [OF this] assms(2) show ?thesis
    by (simp add: balanced_def justify_layer_spacing justify_layer_layer_nodes)
qed

lemma justify_layer_id:
  assumes "balanced l ns"
  shows "justify_layer exact l (ns, lks) = (ns, lks)"
  using assms by (simp add: balanced_def justify_layer_def Let_def place_balanced_id)

lemma justify_vertically_unroll:
  "justify_vertically ar st
     = justify_layer ar 3 (justify_layer ar 2 (justify_layer ar 1 (justify_layer ar 0 st)))"
proof -
  have "layers_loop ar 4 s = s" for s by simp
  moreover have "layers_loop ar 3 s = layers_loop ar 4 (justify_layer ar 3 s)" for s
    by (subst layers_loop.simps) simp
  moreover have "layers_loop ar 2 s = layers_loop ar 3 (justify_layer ar 2 s)" for s
    by (subst layers_loop.simps) simp
  moreover have "layers_loop ar 1 s = layers_loop ar 2 (justify_layer ar 1 s)" for s
    by (subst layers_loop.simps) simp
  moreover have "layers_loop ar 0 s = layers_loop ar 1 (justify_layer ar 0 s)" for s
    by (subst layers_loop.simps) simp
  ultimately show ?thesis by (simp only: justify_vertically_def)
qed

lemma justify_layer_balanced':
  "balanced l (fst (justify_layer exact l st))"
  using justify_layer_balanced [of l "fst st" "snd st"] by simp

lemma justify_layer_other':
  "l' \<noteq> l \<Longrightarrow> balanced l' (fst st) \<Longrightarrow> balanced l' (fst (justify_layer exact l st))"
  using justify_layer_other [of l' l "fst st" "snd st"] by simp

lemma justify_layer_id': "balanced l (fst st) \<Longrightarrow> justify_layer exact l st = st"
  using justify_layer_id [of l "fst st" "snd st"] by simp

lemma justify_vertically_balanced:
  assumes "l \<in> {0, 1, 2, 3}"
  shows "balanced l (fst (justify_vertically exact st))"
proof -
  let ?s0 = "justify_layer exact 0 st"
  let ?s1 = "justify_layer exact 1 ?s0"
  let ?s2 = "justify_layer exact 2 ?s1"
  let ?s3 = "justify_layer exact 3 ?s2"
  have b0: "balanced 0 (fst ?s3)"
    by (intro justify_layer_other' justify_layer_balanced') simp_all
  have b1: "balanced 1 (fst ?s3)"
    by (intro justify_layer_other' justify_layer_balanced') simp_all
  have b2: "balanced 2 (fst ?s3)"
    by (intro justify_layer_other' justify_layer_balanced') simp_all
  have b3: "balanced 3 (fst ?s3)"
    by (rule justify_layer_balanced')
  from assms b0 b1 b2 b3 show ?thesis
    unfolding justify_vertically_unroll by auto
qed

lemma justify_vertically_fixed:
  assumes "balanced 0 (fst st)" "balanced 1 (fst st)" "balanced 2 (fst st)" "balanced 3 (fst st)"
  shows "justify_vertically exact st = st"
  using assms by (simp add: justify_vertically_unroll justify_layer_id')

lemma justify_layer_keeps:
  "length (fst (justify_layer ar l st)) = length (fst st)"
  "j < length (fst st) \<Longrightarrow> layer (fst (justify_layer ar l st) ! j) = layer (fst st ! j)"
  "layer (fst st ! j) \<noteq> l \<Longrightarrow> fst (justify_layer ar l st) ! j = fst st ! j"
  using justify_layer_length [of ar l "fst st" "snd st"]
    justify_layer_frame(1) [of j "fst st" ar l "snd st"]
    justify_layer_untouched [of "fst st" j l ar "snd st"]
  by simp_all

lemma justify_layer_keeps_height:
  "j < length (fst st) \<Longrightarrow>
     y1 (fst (justify_layer exact l st) ! j) - y0 (fst (justify_layer exact l st) ! j)
       = y1 (fst st ! j) - y0 (fst st ! j)"
  using justify_layer_height [of j "fst st" l "snd st"] by simp

lemma justify_vertically_keeps:
  "length (fst (justify_vertically ar st)) = length (fst st)"
  "j < length (fst st) \<Longrightarrow> layer (fst (justify_vertically ar st) ! j) = layer (fst st ! j)"
  by (simp_all add: justify_vertically_unroll justify_layer_keeps)

lemma justify_vertically_keeps_height:
  "j < length (fst st) \<Longrightarrow>
     y1 (fst (justify_vertically exact st) ! j) - y0 (fst (justify_vertically exact st) ! j)
       = y1 (fst st ! j) - y0 (fst st ! j)"
  by (simp add: justify_vertically_unroll justify_layer_keeps justify_layer_keeps_height)

lemma justify_vertically_untouched:
  assumes "j < length (fst st)" and "layer (fst st ! j) \<notin> {0, 1, 2, 3}"
  shows "fst (justify_vertically ar st) ! j = fst st ! j"
  using assms by (simp add: justify_vertically_unroll justify_layer_keeps)

lemma justify_vertically_layer_nodes:
  "layer_nodes l (fst (justify_vertically ar st)) = layer_nodes l (fst st)"
  by (rule layer_nodes_cong) (simp_all add: justify_vertically_keeps)

lemma justify_vertically_node_height:
  "node_height exact (fst (justify_vertically exact st)) (layer_nodes l (fst st))
     = node_height exact (fst st) (layer_nodes l (fst st))"
  by (rule node_height_cong) (simp add: set_layer_nodes justify_vertically_keeps_height)

lemma gaps_placed:
  "placed_from sp y is ns \<Longrightarrow>
     gaps (y - sp) is ns
       = replicate (length is) sp
         @ [real HEIGHT - (y - sp) - real (length is) * sp - node_height exact ns is]"
proof (induction "is" arbitrary: y)
  case Nil
  show ?case by (simp add: node_height_exact)
next
  case (Cons i rest)
  let ?y' = "y + (y1 (ns ! i) - y0 (ns ! i)) + sp"
  from Cons.prems(1) [unfolded placed_from.simps]
  have at: "y0 (ns ! i) = y" and rest: "placed_from sp ?y' rest ns"
    by blast+
  have prev: "y1 (ns ! i) = ?y' - sp" using at by simp
  have "gaps (y - sp) (i # rest) ns = (y0 (ns ! i) - (y - sp)) # gaps (?y' - sp) rest ns"
    by (simp only: gaps.simps prev [symmetric])
  also have "\<dots> = sp # replicate (length rest) sp
      @ [real HEIGHT - (?y' - sp) - real (length rest) * sp - node_height exact ns rest]"
    using Cons.IH [OF rest] at by simp
  also have "real HEIGHT - (?y' - sp) - real (length rest) * sp - node_height exact ns rest
      = real HEIGHT - (y - sp) - real (length (i # rest)) * sp
        - node_height exact ns (i # rest)"
    using at by (simp add: node_height_exact algebra_simps)
  finally show ?case by simp
qed

lemma placed_nth:
  "placed_from sp y is ns \<Longrightarrow> m < length is \<Longrightarrow>
     y0 (ns ! (is ! m)) = (if m = 0 then y else y1 (ns ! (is ! (m - 1))) + sp)"
proof (induction "is" arbitrary: y m)
  case Nil
  then show ?case by simp
next
  case (Cons i rest)
  let ?y' = "y + (y1 (ns ! i) - y0 (ns ! i)) + sp"
  from Cons.prems(1) [unfolded placed_from.simps]
  have at: "y0 (ns ! i) = y" and rest: "placed_from sp ?y' rest ns"
    by blast+
  show ?case
  proof (cases m)
    case 0
    with at show ?thesis by simp
  next
    case (Suc m')
    with Cons.prems have m': "m' < length rest" by simp
    from Cons.IH [OF rest m'] at Suc show ?thesis
      by (cases m') simp_all
  qed
qed

lemma balanced_gaps:
  assumes "balanced l ns"
  shows "layer_gaps l ns = replicate (length (layer_nodes l ns) + 1) (spacing exact l ns)"
proof -
  let ?is = "layer_nodes l ns"
  let ?sp = "spacing exact l ns"
  from assms have p: "placed_from ?sp ?sp ?is ns" by (simp add: balanced_def)
  have eq: "?sp * real (length ?is + 1) = real HEIGHT - node_height exact ns ?is"
    by (simp add: spacing_exact)
  have "real HEIGHT - (?sp - ?sp) - real (length ?is) * ?sp - node_height exact ns ?is
          = ?sp * real (length ?is + 1) - real (length ?is) * ?sp"
    by (simp only: eq)
  also have "\<dots> = ?sp" by (simp add: algebra_simps)
  finally have last:
    "real HEIGHT - (?sp - ?sp) - real (length ?is) * ?sp - node_height exact ns ?is = ?sp" .
  from gaps_placed [OF p] have "gaps 0 ?is ns = replicate (length ?is) ?sp @ [?sp]"
    by (simp only: last) simp
  then show ?thesis
    by (simp add: layer_gaps_def replicate_append_same)
qed

lemma fan_layer_nodes:
  "layer_nodes 0 fan_nodes = [0]" "layer_nodes 1 fan_nodes = [1, 2]"
  "layer_nodes 2 fan_nodes = []" "layer_nodes 3 fan_nodes = []"
  by (simp_all add: layer_nodes_def fan_nodes_def)

lemma fan_roundings:
  "round_double 200 = 200"
  "round_double 1240 = 1240"
  "round_double 620 = 620"
  "round_double 615 = 615"
  "round_double 820 = 820"
  "round_double 1440 = 1440"
  "round_double 670 = 670"
  "round_double 770 = 770"
  "round_double 100 = 100"
  "round_double (1240 / 3) = 7271436898358613 / 17592186044416"
  "round_double (7183475968136533 / 17592186044416) = 7183475968136533 / 17592186044416"
  "round_double (9030655502800213 / 17592186044416) = 2257663875700053 / 4398046511104"
  "round_double (16302092401158825 / 17592186044416) = 2037761550144853 / 2199023255552"
  "round_double (7271436898358613 / 17592186044416) = 7271436898358613 / 17592186044416"
  "round_double (8151046200579413 / 17592186044416) = 8151046200579413 / 17592186044416"
  "round_double (1773878759478613 / 2199023255552) = 1773878759478613 / 2199023255552"
  "round_double (2257663875700053 / 2199023255552) = 2257663875700053 / 2199023255552"
  "round_double (25332747903959037 / 17592186044416) = 6333186975989759 / 4398046511104"
  "round_double (2037761550144853 / 2199023255552) = 2037761550144853 / 2199023255552"
  "round_double (2147712712922453 / 2199023255552) = 2147712712922453 / 2199023255552"
  by (simp_all add: round_double_def normalise_numeral round_half_even_def scale2_def)

lemma fan_double:
  "justify_vertically double (fan_nodes, fan_links)
     = ([\<lparr>layer = 0, y0 = 620, y1 = 820, sourceLinks = [0, 1], targetLinks = []\<rparr>,
         \<lparr>layer = 1, y0 = 7271436898358613 / 17592186044416,
            y1 = 2257663875700053 / 4398046511104, sourceLinks = [], targetLinks = [0]\<rparr>,
         \<lparr>layer = 1, y0 = 2037761550144853 / 2199023255552,
            y1 = 2257663875700053 / 2199023255552, sourceLinks = [], targetLinks = [1]\<rparr>,
         \<lparr>layer = 7, y0 = 3, y1 = 4, sourceLinks = [], targetLinks = []\<rparr>],
        [\<lparr>link_y0 = 670, link_y1 = 8151046200579413 / 17592186044416\<rparr>,
         \<lparr>link_y0 = 770, link_y1 = 2147712712922453 / 2199023255552\<rparr>])"
proof -
  let ?s0 = "([\<lparr>layer = 0, y0 = 620, y1 = 820, sourceLinks = [0, 1], targetLinks = []\<rparr>,
         \<lparr>layer = 1, y0 = 5, y1 = 105, sourceLinks = [], targetLinks = [0]\<rparr>,
         \<lparr>layer = 1, y0 = 120, y1 = 220, sourceLinks = [], targetLinks = [1]\<rparr>,
         \<lparr>layer = 7, y0 = 3, y1 = 4, sourceLinks = [], targetLinks = []\<rparr>],
        [\<lparr>link_y0 = 670, link_y1 = 55\<rparr>, \<lparr>link_y0 = 770, link_y1 = 170\<rparr>])
        :: real snode list \<times> real slink list"
  let ?s1 = "([\<lparr>layer = 0, y0 = 620, y1 = 820, sourceLinks = [0, 1], targetLinks = []\<rparr>,
         \<lparr>layer = 1, y0 = 7271436898358613 / 17592186044416,
            y1 = 2257663875700053 / 4398046511104, sourceLinks = [], targetLinks = [0]\<rparr>,
         \<lparr>layer = 1, y0 = 2037761550144853 / 2199023255552,
            y1 = 2257663875700053 / 2199023255552, sourceLinks = [], targetLinks = [1]\<rparr>,
         \<lparr>layer = 7, y0 = 3, y1 = 4, sourceLinks = [], targetLinks = []\<rparr>],
        [\<lparr>link_y0 = 670, link_y1 = 8151046200579413 / 17592186044416\<rparr>,
         \<lparr>link_y0 = 770, link_y1 = 2147712712922453 / 2199023255552\<rparr>])
        :: real snode list \<times> real slink list"
  have l0: "justify_layer double 0 (fan_nodes, fan_links) = ?s0"
    by (simp add: justify_layer_def spacing_def fan_layer_nodes node_height_def HEIGHT_def
        Let_def)
       (simp add: fan_nodes_def fan_links_def double_def fan_roundings)
  have l1: "justify_layer double 1 ?s0 = ?s1"
    by (simp add: justify_layer_def spacing_def layer_nodes_def node_height_def HEIGHT_def
        Let_def double_def fan_roundings)
  have l2: "justify_layer double 2 ?s1 = ?s1"
    by (simp add: justify_layer_def layer_nodes_def Let_def)
  have l3: "justify_layer double 3 ?s1 = ?s1"
    by (simp add: justify_layer_def layer_nodes_def Let_def)
  show ?thesis
    by (simp only: justify_vertically_unroll l0 l1 l2 l3)
qed

section \<open>Layout adjuster: the claims\<close>

text \<open>
  C8: the divisor of the spacing computation is the number of nodes in the layer plus
  one, hence at least 1 for every node list and every layer, so the quotient times the
  divisor gives back the free height; for a layer without nodes the divisor is 1 and the
  spacing is the whole canvas height. In every arithmetic the divisor is the number of
  that count plus one.
\<close>

theorem spacing_divisor_positive:
  "1 \<le> real (length (layer_nodes l ns) + 1)
   \<and> spacing exact l ns * real (length (layer_nodes l ns) + 1)
       = real HEIGHT - node_height exact ns (layer_nodes l ns)
   \<and> (layer_nodes l ns = [] \<longrightarrow> spacing exact l ns = real HEIGHT)
   \<and> spacing ar l ms
       = num_div ar (num_sub ar (num_of_nat ar HEIGHT) (node_height ar ms (layer_nodes l ms)))
           (num_of_nat ar (length (layer_nodes l ms) + 1))
   \<and> 1 \<le> length (layer_nodes l ms) + 1"
  by (simp add: spacing_exact node_height_exact) (simp add: spacing_def)

text \<open>
  C10 as stated fails. In double arithmetic \<^verbatim>\<open>node.y0 += offset\<close> and
  \<^verbatim>\<open>node.y1 += offset\<close> round separately: the second node of the example, of height
  100, ends with \<open>y1 - y0 = 1759218604441599 / 17592186044416\<close>, about
  \<open>99.99999999999994\<close>.
\<close>

theorem justify_vertically_preserves_height_counterexample:
  "y1 (fst (justify_vertically double (fan_nodes, fan_links)) ! 1)
     - y0 (fst (justify_vertically double (fan_nodes, fan_links)) ! 1)
     = 1759218604441599 / 17592186044416
   \<and> y1 (fan_nodes ! 1) - y0 (fan_nodes ! 1) = 100
   \<and> num_sub double (y1 (fst (justify_vertically double (fan_nodes, fan_links)) ! 1))
        (y0 (fst (justify_vertically double (fan_nodes, fan_links)) ! 1))
     = 1759218604441599 / 17592186044416"
  by (simp add: fan_double) (simp add: fan_nodes_def double_eval)

text \<open>
  C10, amended: in every arithmetic the adjustment keeps the number of nodes and every
  node's layer, and a node whose layer is none of 0, 1, 2, 3 is left as it was; over exact
  arithmetic it also keeps every node's height \<open>y1 - y0\<close>.
\<close>

theorem justify_vertically_preserves_height:
  "length (fst (justify_vertically ar (ms, mks))) = length ms
   \<and> (\<forall>j < length ms.
        layer (fst (justify_vertically ar (ms, mks)) ! j) = layer (ms ! j)
        \<and> (layer (ms ! j) \<notin> {0, 1, 2, 3} \<longrightarrow>
             fst (justify_vertically ar (ms, mks)) ! j = ms ! j))
   \<and> (\<forall>j < length ns.
        y1 (fst (justify_vertically exact (ns, lks)) ! j)
          - y0 (fst (justify_vertically exact (ns, lks)) ! j)
          = y1 (ns ! j) - y0 (ns ! j))"
  using justify_vertically_keeps [where st = "(ms, mks)" and ar = ar]
    justify_vertically_untouched [where st = "(ms, mks)" and ar = ar]
    justify_vertically_keeps_height [where st = "(ns, lks)"]
  by simp

text \<open>
  C6: over exact arithmetic the adjustment is idempotent: a second run returns the nodes
  and the link store of the first run unchanged; and a state whose four layers are
  already balanced is returned as it is.
\<close>

theorem justify_vertically_idempotent:
  "justify_vertically exact (justify_vertically exact st) = justify_vertically exact st
   \<and> ((\<forall>l \<in> {0, 1, 2, 3}. balanced l (fst st)) \<longrightarrow> justify_vertically exact st = st)"
proof
  show "justify_vertically exact (justify_vertically exact st) = justify_vertically exact st"
    by (rule justify_vertically_fixed) (simp_all add: justify_vertically_balanced)
  show "(\<forall>l \<in> {0, 1, 2, 3}. balanced l (fst st)) \<longrightarrow> justify_vertically exact st = st"
    by (simp add: justify_vertically_fixed)
qed

text \<open>
  C5 as stated fails. In double arithmetic the two layer-1 nodes of the example end at
  \<open>y0 = 7271436898358613 / 2^44\<close>, \<open>y1 = 2257663875700053 / 2^42\<close> and
  \<open>y0 = 2037761550144853 / 2^41\<close>, \<open>y1 = 2257663875700053 / 2^41\<close>, so the three gaps
  are about \<open>413.3333333333333\<close>, \<open>413.33333333333326\<close> and \<open>413.3333333333335\<close>: they
  differ, and the second node does not start at the end of the first plus the spacing.
\<close>

theorem justify_vertically_even_gaps_counterexample:
  "layer_gaps 1 (fst (justify_vertically double (fan_nodes, fan_links)))
     = [7271436898358613 / 17592186044416, 1817859224589653 / 4398046511104,
        908929612294827 / 2199023255552]
   \<and> (7271436898358613 / 17592186044416 :: real) \<noteq> 1817859224589653 / 4398046511104
   \<and> (1817859224589653 / 4398046511104 :: real) \<noteq> 908929612294827 / 2199023255552
   \<and> spacing double 1 fan_nodes = 7271436898358613 / 17592186044416
   \<and> y0 (fst (justify_vertically double (fan_nodes, fan_links)) ! 2)
       \<noteq> y1 (fst (justify_vertically double (fan_nodes, fan_links)) ! 1)
         + spacing double 1 fan_nodes"
proof -
  have sp: "spacing double 1 fan_nodes = 7271436898358613 / 17592186044416"
    by (simp add: spacing_def fan_layer_nodes node_height_def HEIGHT_def)
       (simp add: fan_nodes_def double_def fan_roundings)
  show ?thesis
    by (simp add: sp fan_double) (simp add: layer_gaps_def layer_nodes_def HEIGHT_def)
qed

text \<open>
  C5, amended: over exact arithmetic, after the adjustment, for each of the layers 0 to 3
  with \<open>k\<close> nodes, the \<open>k + 1\<close> gaps (before the first node, between consecutive nodes,
  after the last node up to \<open>HEIGHT\<close>) all equal the spacing
  \<open>(HEIGHT - occupied height) / (k + 1)\<close>, they sum to \<open>HEIGHT\<close> minus the occupied
  height, the first node starts at the spacing and every later node starts at the end of
  its predecessor plus the spacing.
\<close>

theorem justify_vertically_even_gaps:
  assumes "l \<in> {0, 1, 2, 3}"
  shows "layer_nodes l (fst (justify_vertically exact (ns, lks))) = layer_nodes l ns
   \<and> node_height exact (fst (justify_vertically exact (ns, lks))) (layer_nodes l ns)
       = node_height exact ns (layer_nodes l ns)
   \<and> spacing exact l ns
       = (real HEIGHT - node_height exact ns (layer_nodes l ns))
         / real (length (layer_nodes l ns) + 1)
   \<and> layer_gaps l (fst (justify_vertically exact (ns, lks)))
       = replicate (length (layer_nodes l ns) + 1) (spacing exact l ns)
   \<and> sum_list (layer_gaps l (fst (justify_vertically exact (ns, lks))))
       = real HEIGHT - node_height exact ns (layer_nodes l ns)
   \<and> (\<forall>m < length (layer_nodes l ns).
        y0 (fst (justify_vertically exact (ns, lks)) ! (layer_nodes l ns ! m))
          = (if m = 0 then spacing exact l ns
             else y1 (fst (justify_vertically exact (ns, lks)) ! (layer_nodes l ns ! (m - 1)))
                  + spacing exact l ns))"
proof -
  let ?ns' = "fst (justify_vertically exact (ns, lks))"
  let ?is = "layer_nodes l ns"
  have ln: "layer_nodes l ?ns' = ?is"
    using justify_vertically_layer_nodes [of l exact "(ns, lks)"] by simp
  have nh: "node_height exact ?ns' ?is = node_height exact ns ?is"
    using justify_vertically_node_height [of "(ns, lks)" l] by simp
  have sp: "spacing exact l ?ns' = spacing exact l ns"
    by (simp add: spacing_exact ln nh)
  have b: "balanced l ?ns'"
    by (rule justify_vertically_balanced [OF assms])
  have g: "layer_gaps l ?ns' = replicate (length ?is + 1) (spacing exact l ns)"
    using balanced_gaps [OF b] by (simp add: ln sp)
  have "sum_list (layer_gaps l ?ns') = real (length ?is + 1) * spacing exact l ns"
    by (simp only: g sum_list_replicate)
  also have "\<dots> = real HEIGHT - node_height exact ns ?is"
    by (simp add: spacing_exact)
  finally have s: "sum_list (layer_gaps l ?ns') = real HEIGHT - node_height exact ns ?is" .
  from b have p: "placed_from (spacing exact l ns) (spacing exact l ns) ?is ?ns'"
    by (simp add: balanced_def ln sp)
  have w: "\<forall>m < length ?is.
        y0 (?ns' ! (?is ! m))
          = (if m = 0 then spacing exact l ns
             else y1 (?ns' ! (?is ! (m - 1))) + spacing exact l ns)"
    using placed_nth [OF p] by blast
  from ln nh g s w spacing_exact [of l ns] show ?thesis by blast
qed

section \<open>Layout adjuster: the claims on concrete layouts\<close>

lemma fan_node_height:
  "node_height exact fan_nodes [1, 2] = 200" "node_height exact fan_nodes [Suc 0, 2] = 200"
  by (simp_all add: node_height_exact fan_nodes_def)

lemma fan_spacing: "spacing exact 1 fan_nodes = 1240 / 3" "spacing exact 2 fan_nodes = 1440"
  by (simp_all add: spacing_exact fan_layer_nodes node_height_exact HEIGHT_def)
     (simp_all add: fan_nodes_def)

theorem justify_vertically_even_gaps_witness:
  "(1::int) \<in> {0, 1, 2, 3} \<and>
   layer_gaps 1 (fst (justify_vertically exact (fan_nodes, fan_links)))
     = [1240 / 3, 1240 / 3, 1240 / 3] \<and>
   sum_list (layer_gaps 1 (fst (justify_vertically exact (fan_nodes, fan_links)))) = 1440 - 200 \<and>
   y0 (fst (justify_vertically exact (fan_nodes, fan_links)) ! 1) = 1240 / 3 \<and>
   y0 (fst (justify_vertically exact (fan_nodes, fan_links)) ! 2)
     = y1 (fst (justify_vertically exact (fan_nodes, fan_links)) ! 1) + 1240 / 3"
proof -
  have h: "(1::int) \<in> {0, 1, 2, 3}" by simp
  note nh = fan_node_height
  note t = justify_vertically_even_gaps [OF h, of fan_nodes fan_links]
  from t have g: "layer_gaps 1 (fst (justify_vertically exact (fan_nodes, fan_links)))
      = [1240 / 3, 1240 / 3, 1240 / 3]"
    by (simp add: fan_layer_nodes fan_spacing numeral_3_eq_3)
  from t have s: "sum_list (layer_gaps 1 (fst (justify_vertically exact (fan_nodes, fan_links))))
      = 1440 - 200"
    by (simp add: fan_layer_nodes fan_spacing nh HEIGHT_def)
  from t have w: "\<forall>m < 2.
        y0 (fst (justify_vertically exact (fan_nodes, fan_links)) ! ([1, 2] ! m))
          = (if m = 0 then 1240 / 3
             else y1 (fst (justify_vertically exact (fan_nodes, fan_links)) ! ([1, 2] ! (m - 1)))
                  + 1240 / 3)"
    by (simp add: fan_layer_nodes fan_spacing)
  from w [rule_format, of 0] w [rule_format, of 1] g s h show ?thesis by simp
qed

theorem spacing_divisor_positive_witness:
  "layer_nodes 2 fan_nodes = [] \<and> spacing exact 2 fan_nodes = 1440 \<and>
   spacing exact 1 fan_nodes * real (length (layer_nodes 1 fan_nodes) + 1) = 1440 - 200"
proof -
  have e: "layer_nodes 2 fan_nodes = []" by (rule fan_layer_nodes)
  note nh = fan_node_height
  from spacing_divisor_positive [of 2 fan_nodes double fan_nodes]
    spacing_divisor_positive [of 1 fan_nodes double fan_nodes] e
  show ?thesis by (simp add: HEIGHT_def fan_layer_nodes nh)
qed

theorem justify_vertically_preserves_height_witness:
  "(3::nat) < length fan_nodes \<and> layer (fan_nodes ! 3) \<notin> {0, 1, 2, 3} \<and>
   fst (justify_vertically double (fan_nodes, fan_links)) ! 3 = fan_nodes ! 3 \<and>
   layer (fst (justify_vertically double (fan_nodes, fan_links)) ! 1) = 1 \<and>
   y1 (fst (justify_vertically exact (fan_nodes, fan_links)) ! 1)
     - y0 (fst (justify_vertically exact (fan_nodes, fan_links)) ! 1) = 100"
proof -
  have len: "length fan_nodes = 4" by (simp add: fan_nodes_def)
  have l3: "layer (fan_nodes ! 3) \<notin> {0, 1, 2, 3}" by (simp add: fan_nodes_def)
  have l1: "layer (fan_nodes ! 1) = 1" by (simp add: fan_nodes_def)
  have h1: "y1 (fan_nodes ! 1) - y0 (fan_nodes ! 1) = 100" by (simp add: fan_nodes_def)
  note t = justify_vertically_preserves_height [of double fan_nodes fan_links fan_nodes fan_links]
  note a = t [THEN conjunct2, THEN conjunct1, rule_format]
  note b = t [THEN conjunct2, THEN conjunct2, rule_format]
  from a [of 3] a [of 1] b [of 1] len l3 l1 h1 show ?thesis by simp
qed

theorem justify_vertically_idempotent_witness:
  "balanced 0 (fst (centred_nodes, centred_links)) \<and>
   balanced 1 (fst (centred_nodes, centred_links)) \<and>
   balanced 2 (fst (centred_nodes, centred_links)) \<and>
   balanced 3 (fst (centred_nodes, centred_links)) \<and>
   justify_vertically exact (centred_nodes, centred_links) = (centred_nodes, centred_links)"
proof -
  have ln: "layer_nodes 0 centred_nodes = [0]" "layer_nodes 1 centred_nodes = []"
    "layer_nodes 2 centred_nodes = []" "layer_nodes 3 centred_nodes = []"
    by (simp_all add: layer_nodes_def centred_nodes_def)
  have sp: "spacing exact 0 centred_nodes = 670"
    by (simp add: spacing_exact ln node_height_exact HEIGHT_def) (simp add: centred_nodes_def)
  have b: "\<forall>l \<in> {0, 1, 2, 3}. balanced l (fst (centred_nodes, centred_links))"
    by (simp add: balanced_def ln sp) (simp add: centred_nodes_def)
  from justify_vertically_idempotent [of "(centred_nodes, centred_links)", THEN conjunct2] b
  have "justify_vertically exact (centred_nodes, centred_links) = (centred_nodes, centred_links)"
    by blast
  with b show ?thesis by simp
qed

end
